theory Spec2Isabelle
  imports Main "HOL-Library.AList"
begin

section \<open>JavaScript strings\<close>

text \<open>
  A JavaScript string is a sequence of UTF-16 code units; a code unit is modelled by its
  number (below \<open>2^16\<close>). \<open>js\<close> turns an ASCII literal into such a sequence, so that the
  texts of the source can be written as they are.
\<close>

type_synonym jsstring = "nat list"

definition js :: "string \<Rightarrow> jsstring" where
  "js s = map of_char s"

text \<open>
  The white space of \<open>String.prototype.trim\<close> and of the regular expression class
  \<open>\s\<close> (ECMA-262: WhiteSpace and LineTerminator): TAB, LF, VT, FF, CR, SP, NBSP,
  U+1680, U+2000 to U+200A, LS, PS, U+202F, U+205F, U+3000 and the BOM.
\<close>

definition isWhiteSpace :: "nat \<Rightarrow> bool" where
  "isWhiteSpace u \<longleftrightarrow>
     (9 \<le> u \<and> u \<le> 13) \<or> u = 32 \<or> u = 160 \<or> u = 5760 \<or> (8192 \<le> u \<and> u \<le> 8202)
     \<or> u = 8232 \<or> u = 8233 \<or> u = 8239 \<or> u = 8287 \<or> u = 12288 \<or> u = 65279"

definition trim :: "jsstring \<Rightarrow> jsstring" where
  "trim s = rev (dropWhile isWhiteSpace (rev (dropWhile isWhiteSpace s)))"

fun startsWith :: "jsstring \<Rightarrow> jsstring \<Rightarrow> bool" where
  "startsWith s [] = True"
| "startsWith [] (p # ps) = False"
| "startsWith (c # cs) (p # ps) = (c = p \<and> startsWith cs ps)"

text \<open>\<open>String.prototype.includes\<close>: the pattern occurs at some position.\<close>

fun str_includes :: "jsstring \<Rightarrow> jsstring \<Rightarrow> bool" where
  "str_includes [] p = (p = [])"
| "str_includes (c # cs) p = (startsWith (c # cs) p \<or> str_includes cs p)"

text \<open>\<open>indexOf\<close> and \<open>lastIndexOf\<close> of a one-unit pattern: the index, or \<open>-1\<close>.\<close>

fun indexOf :: "jsstring \<Rightarrow> nat \<Rightarrow> int" where
  "indexOf [] u = -1"
| "indexOf (c # cs) u =
     (if c = u then 0 else (let i = indexOf cs u in if i = -1 then -1 else i + 1))"

definition lastIndexOf :: "jsstring \<Rightarrow> nat \<Rightarrow> int" where
  "lastIndexOf s u =
     (let i = indexOf (rev s) u in if i = -1 then -1 else int (length s) - 1 - i)"

text \<open>
  \<open>substring(start, end)\<close>: both arguments are clamped to \<open>[0, length]\<close> and swapped
  when the first is the larger.
\<close>

definition substring :: "jsstring \<Rightarrow> int \<Rightarrow> int \<Rightarrow> jsstring" where
  "substring s start end =
     (let n = int (length s);
          a = min (max start 0) n;
          b = min (max end 0) n;
          lo = min a b;
          hi = max a b
      in take (nat (hi - lo)) (drop (nat lo) s))"

text \<open>\<open>charAt(0)\<close> is the first code unit as a string, or the empty string.\<close>

definition charAt0 :: "jsstring \<Rightarrow> jsstring" where
  "charAt0 s = take 1 s"

text \<open>\<open>slice(1)\<close> is the string without its first code unit.\<close>

definition slice1 :: "jsstring \<Rightarrow> jsstring" where
  "slice1 s = drop 1 s"

subsection \<open>Case mapping\<close>

text \<open>
  \<open>toUpperCase\<close> and \<open>toLowerCase\<close> follow the Unicode case mappings of the engine. On a
  string of code units below U+0100 (Basic Latin and Latin-1 Supplement) they are given
  by the two tables below, which are the same in every version of the tables: the small
  letters a to z and U+00E0 to U+00FE (without the division sign U+00F7) are 32 above
  their capitals, the micro sign U+00B5 upper-cases to U+039C, y with diaeresis U+00FF
  to U+0178, and sharp s U+00DF to the two letters SS. On every other string the
  conversions are the engine's own (its tables grow with each version of Unicode, and
  lower-casing depends on the context of a letter): they are parameters,
  \<open>upperBeyond\<close> and \<open>lowerBeyond\<close>.
\<close>

definition latin1 :: "jsstring \<Rightarrow> bool" where
  "latin1 s \<longleftrightarrow> list_all (\<lambda>u. u < 256) s"

definition upper_unit :: "nat \<Rightarrow> jsstring" where
  "upper_unit u =
     (if 97 \<le> u \<and> u \<le> 122 then [u - 32]
      else if u = 181 then [924]
      else if u = 223 then [83, 83]
      else if 224 \<le> u \<and> u \<le> 254 \<and> u \<noteq> 247 then [u - 32]
      else if u = 255 then [376]
      else [u])"

definition lower_unit :: "nat \<Rightarrow> nat" where
  "lower_unit u =
     (if 65 \<le> u \<and> u \<le> 90 then u + 32
      else if 192 \<le> u \<and> u \<le> 222 \<and> u \<noteq> 215 then u + 32
      else u)"

record CaseTables =
  upperBeyond :: "jsstring \<Rightarrow> jsstring"
  lowerBeyond :: "jsstring \<Rightarrow> jsstring"

definition toUpperCase :: "CaseTables \<Rightarrow> jsstring \<Rightarrow> jsstring" where
  "toUpperCase U s = (if latin1 s then concat (map upper_unit s) else upperBeyond U s)"

definition toLowerCase :: "CaseTables \<Rightarrow> jsstring \<Rightarrow> jsstring" where
  "toLowerCase U s = (if latin1 s then map lower_unit s else lowerBeyond U s)"

text \<open>
  Converting twice is converting once. The Unicode conversions have this property: the
  upper-casing of a character consists of characters that upper-casing leaves alone, and
  likewise for lower-casing.
\<close>

definition idempotentCase :: "CaseTables \<Rightarrow> bool" where
  "idempotentCase U \<longleftrightarrow>
     (\<forall>s. toUpperCase U (toUpperCase U s) = toUpperCase U s)
     \<and> (\<forall>s. toLowerCase U (toLowerCase U s) = toLowerCase U s)"

section \<open>Tag normalization\<close>

text \<open>
  geminiService.ts, line 146, the function mapped over the generated tags:
  \<^verbatim>\<open>tag => tag.charAt(0).toUpperCase() + tag.slice(1).toLowerCase()\<close>
\<close>

definition normalizeTag :: "CaseTables \<Rightarrow> jsstring \<Rightarrow> jsstring" where
  "normalizeTag U tag = toUpperCase U (charAt0 tag) @ toLowerCase U (slice1 tag)"

section \<open>The tracked video tags\<close>


text \<open>
  \<open>Number.prototype.toString\<close> of a non-negative integer, as \<open>Date.now().toString()\<close>
  gives it: the decimal digits.
\<close>

fun decimal :: "nat \<Rightarrow> jsstring" where
  "decimal n = (if n < 10 then [48 + n] else decimal (n div 10) @ [48 + n mod 10])"

declare decimal.simps [simp del]





section \<open>The tracked repositories\<close>

text \<open>
  types.ts, \<open>interface Repository\<close> and its optional \<open>latestRelease\<close>; an absent
  \<open>latestRelease\<close> is \<open>None\<close>. The numeric \<open>id\<close> is GitHub's integer identifier.
\<close>

record Release =
  rel_name :: jsstring
  rel_tagName :: jsstring
  rel_publishedAt :: jsstring
  rel_url :: jsstring

record Repository =
  repo_id :: int
  fullName :: jsstring
  repo_url :: jsstring
  description :: "jsstring option"
  avatarUrl :: jsstring
  hasUpdate :: bool
  latestRelease :: "Release option"

text \<open>
  RepositoryPanels.tsx, line 178: \<^verbatim>\<open>new Map(checkedRepos.map(r => [r.id, r]))\<close>.
  A later entry of the list replaces an earlier one with the same key.
\<close>

definition checkedMap :: "Repository list \<Rightarrow> (int \<rightharpoonup> Repository)" where
  "checkedMap checkedRepos = map_of (rev (map (\<lambda>r. (repo_id r, r)) checkedRepos))"

text \<open>
  Lines 180 to 182, the state update applied to the tracked set of that moment:
  \<^verbatim>\<open>prevRepos => prevRepos.map(repo => checkedMap.get(repo.id) || repo)\<close>
  (an entry of the map is an object, hence never falsy).
\<close>

definition mergeChecked :: "Repository list \<Rightarrow> Repository list \<Rightarrow> Repository list" where
  "mergeChecked checkedRepos prevRepos =
     map (\<lambda>repo. case checkedMap checkedRepos (repo_id repo) of
                    Some r \<Rightarrow> r
                  | None \<Rightarrow> repo) prevRepos"

section \<open>The update check of one repository\<close>

text \<open>A thrown \<open>Error\<close> (or \<open>TypeError\<close>, \<open>SyntaxError\<close>) with its message.\<close>

datatype error = Error (message: jsstring)

text \<open>
  What the check reads of the platform it runs on. None of it is code of the repository,
  so all of it is a parameter:
  \<^item> \<open>URL_parse\<close>: the \<open>hostname\<close> and the \<open>pathname\<close> of \<open>new URL(url)\<close>, or \<open>None\<close>
    where the constructor throws;
  \<^item> \<open>fetch\<close>: the outcome of \<open>fetch(url)\<close>, a thrown error or a response with its
    \<open>ok\<close> flag and the outcome of \<open>response.json()\<close>, the list of releases;
  \<^item> \<open>Date_parse\<close>: the time value (milliseconds since the epoch) of
    \<open>new Date(string)\<close>, or \<open>None\<close> for an invalid date, whose time value is NaN;
  \<^item> \<open>LocalTZA_utc\<close> and \<open>LocalTZA_local\<close>: the offset of local time from UTC in
    milliseconds, at a UTC time value and at a local time value (ECMA-262,
    LocalTime and UTC).
\<close>

record URL =
  hostname :: jsstring
  pathname :: jsstring

record GitHubRelease =
  name :: jsstring
  tag_name :: jsstring
  published_at :: jsstring
  html_url :: jsstring

record Response =
  ok :: bool
  json :: "error + GitHubRelease list"

record Platform =
  URL_parse :: "jsstring \<Rightarrow> URL option"
  fetch :: "jsstring \<Rightarrow> error + Response"
  Date_parse :: "jsstring \<Rightarrow> int option"
  LocalTZA_utc :: "int \<Rightarrow> int"
  LocalTZA_local :: "int \<Rightarrow> int"

text \<open>\<open>String.prototype.split\<close> at a one-unit separator.\<close>

fun split :: "nat \<Rightarrow> jsstring \<Rightarrow> jsstring list" where
  "split sep [] = [[]]"
| "split sep (c # cs) =
     (if c = sep then [] # split sep cs
      else (case split sep cs of
              [] \<Rightarrow> [[c]]
            | part # parts \<Rightarrow> (c # part) # parts))"

text \<open>
  githubService.ts, \<open>parseRepoUrl\<close>:
  \<^verbatim>\<open>
  try {
    const urlObj = new URL(url);
    if (urlObj.hostname !== 'github.com') return null;
    const pathParts = urlObj.pathname.split('/').filter(Boolean);
    if (pathParts.length >= 2) return { owner: pathParts[0], repo: pathParts[1] };
    return null;
  } catch (error) { return null; }\<close>
\<close>

definition parseRepoUrl :: "Platform \<Rightarrow> jsstring \<Rightarrow> (jsstring \<times> jsstring) option" where
  "parseRepoUrl p url =
     (case URL_parse p url of
        None \<Rightarrow> None
      | Some urlObj \<Rightarrow>
          if hostname urlObj \<noteq> js ''github.com'' then None
          else (let pathParts = filter (\<lambda>part. part \<noteq> []) (split 47 (pathname urlObj))
                in if length pathParts \<ge> 2 then Some (pathParts ! 0, pathParts ! 1)
                   else None))"

definition GITHUB_API_BASE :: jsstring where
  "GITHUB_API_BASE = js ''https://api.github.com''"

text \<open>
  \<open>fetchLatestRelease\<close>:
  \<^verbatim>\<open>
  const response = await fetch(`${GITHUB_API_BASE}/repos/${owner}/${repo}/releases`);
  if (!response.ok) throw new Error('Failed to fetch repository releases.');
  const releases = await response.json();
  return releases.length > 0 ? releases[0] : null;\<close>
\<close>

definition fetchLatestRelease ::
  "Platform \<Rightarrow> jsstring \<Rightarrow> jsstring \<Rightarrow> error + GitHubRelease option" where
  "fetchLatestRelease p owner repo =
     (case fetch p (GITHUB_API_BASE @ js ''/repos/'' @ owner @ js ''/'' @ repo @ js ''/releases'') of
        Inl e \<Rightarrow> Inl e
      | Inr response \<Rightarrow>
          if \<not> ok response then Inl (Error (js ''Failed to fetch repository releases.''))
          else (case json response of
                  Inl e \<Rightarrow> Inl e
                | Inr releases \<Rightarrow>
                    Inr (if length releases > 0 then Some (releases ! 0) else None)))"

definition msPerDay :: int where
  "msPerDay = 86400000"

text \<open>
  Lines 47 and 48, with \<open>now\<close> the time value of \<open>new Date()\<close>:
  \<^verbatim>\<open>
  const threeDaysAgo = new Date();
  threeDaysAgo.setDate(threeDaysAgo.getDate() - 3);\<close>
  \<open>setDate\<close> works on local time (ECMA-262, Date.prototype.setDate): with
  \<open>t = LocalTime(now)\<close> it stores \<open>UTC(MakeDate(MakeDay(Year t, Month t, Date t - 3),
  TimeWithinDay t))\<close>. \<open>MakeDay\<close> counts days from the first of the month, so the day
  it returns is the day of \<open>t\<close> less three, and the local time stored is \<open>t\<close> less three
  days, at the same time of day.
\<close>

definition threeDaysAgo :: "Platform \<Rightarrow> int \<Rightarrow> int" where
  "threeDaysAgo p now =
     (let t = now + LocalTZA_utc p now;
          newDate = t - 3 * msPerDay
      in newDate - LocalTZA_local p newDate)"

text \<open>
  \<open>checkRepositoryUpdate\<close>, with \<open>now\<close> the clock reading of line 47. A comparison
  with an invalid date is false.
  \<^verbatim>\<open>
  const parsed = parseRepoUrl(repository.url);
  if (!parsed) return repository;
  try {
      const latestRelease = await fetchLatestRelease(parsed.owner, parsed.repo);
      if (latestRelease) {
          const releaseDate = new Date(latestRelease.published_at);
          ...
          const hasUpdate = releaseDate > threeDaysAgo;
          return { ...repository, hasUpdate,
                   latestRelease: { name: latestRelease.name, tagName: latestRelease.tag_name,
                                    publishedAt: latestRelease.published_at,
                                    url: latestRelease.html_url } };
      }
      return { ...repository, hasUpdate: false };
  } catch (error) {
      console.error(...);
      return { ...repository, hasUpdate: false };
  }\<close>
\<close>

definition checkRepositoryUpdate :: "Platform \<Rightarrow> int \<Rightarrow> Repository \<Rightarrow> Repository" where
  "checkRepositoryUpdate p now repository =
     (case parseRepoUrl p (repo_url repository) of
        None \<Rightarrow> repository
      | Some (owner, repo) \<Rightarrow>
          (case fetchLatestRelease p owner repo of
             Inr (Some latest) \<Rightarrow>
               (let newer = (case Date_parse p (published_at latest) of
                               None \<Rightarrow> False
                             | Some releaseDate \<Rightarrow> releaseDate > threeDaysAgo p now)
                in repository\<lparr>hasUpdate := newer,
                     latestRelease := Some \<lparr>rel_name = name latest,
                                             rel_tagName = tag_name latest,
                                             rel_publishedAt = published_at latest,
                                             rel_url = html_url latest\<rparr>\<rparr>)
           | Inr None \<Rightarrow> repository\<lparr>hasUpdate := False\<rparr>
           | Inl e \<Rightarrow> repository\<lparr>hasUpdate := False\<rparr>))"

text \<open>
  RepositoryPanels.tsx, \<open>runUpdateCheck\<close>: every tracked repository of the snapshot
  \<open>repositories\<close> is checked (line 175), the \<open>i\<close>-th check reading the clock at
  \<open>clock i\<close>; when all are done (line 176) the results are merged into the tracked set
  of that moment, \<open>prevRepos\<close>. No check raises, so \<open>Promise.all\<close> does not reject.
\<close>

definition checkAll :: "Platform \<Rightarrow> (nat \<Rightarrow> int) \<Rightarrow> Repository list \<Rightarrow> Repository list" where
  "checkAll p clock repositories =
     map (\<lambda>(i, repository). checkRepositoryUpdate p (clock i) repository)
       (enumerate 0 repositories)"

definition runUpdateCheck ::
  "Platform \<Rightarrow> (nat \<Rightarrow> int) \<Rightarrow> Repository list \<Rightarrow> Repository list \<Rightarrow> Repository list" where
  "runUpdateCheck p clock repositories prevRepos =
     (if repositories = [] then prevRepos
      else mergeChecked (checkAll p clock repositories) prevRepos)"

section \<open>The accumulated news\<close>

text \<open>types.ts: \<^verbatim>\<open>interface NewsArticle { title: string; summary: string; link: string; }\<close>\<close>

record NewsArticle =
  title :: jsstring
  summary :: jsstring
  link :: jsstring

text \<open>
  The component state of \<open>NewsDisplay\<close>: the articles and the loading flags, both
  keyed by the identity of the source (\<open>Record<string, ...>\<close>).
\<close>

record NewsState =
  articles :: "jsstring \<rightharpoonup> NewsArticle list"
  loadingSources :: "jsstring \<rightharpoonup> bool"

text \<open>\<^verbatim>\<open>prev[source.id] || []\<close>\<close>

definition articlesOf :: "(jsstring \<rightharpoonup> NewsArticle list) \<Rightarrow> jsstring \<Rightarrow> NewsArticle list" where
  "articlesOf prev sid = (case prev sid of Some as \<Rightarrow> as | None \<Rightarrow> [])"

text \<open>
  NewsPanel.tsx, lines 194 to 199, the update of the articles after a fetch:
  \<^verbatim>\<open>
  const currentArticles = prev[source.id] || [];
  const currentLinks = new Set(currentArticles.map(a => a.link));
  const newUniqueArticles = fetchedArticles.filter(a => !currentLinks.has(a.link));
  return { ...prev, [source.id]: [...newUniqueArticles, ...currentArticles] };\<close>
\<close>

definition mergeArticles ::
  "jsstring \<Rightarrow> NewsArticle list \<Rightarrow> (jsstring \<rightharpoonup> NewsArticle list)
     \<Rightarrow> (jsstring \<rightharpoonup> NewsArticle list)" where
  "mergeArticles sid fetchedArticles prev =
     (let currentArticles = articlesOf prev sid;
          currentLinks = set (map link currentArticles);
          newUniqueArticles = filter (\<lambda>a. link a \<notin> currentLinks) fetchedArticles
      in prev(sid \<mapsto> newUniqueArticles @ currentArticles))"

text \<open>
  \<open>fetchNewsForSource\<close>, lines 188 to 210. \<open>fetched\<close> is the outcome of the awaited
  \<open>fetchAndSummarizeNews(source.url)\<close>: the articles, or \<open>None\<close> when the call raises.
\<close>

definition fetchNewsForSource ::
  "NewsArticle list option \<Rightarrow> jsstring \<Rightarrow> bool \<Rightarrow> NewsState \<Rightarrow> NewsState" where
  "fetchNewsForSource fetched sid isBackgroundRefresh st =
     (let st1 = (if \<not> isBackgroundRefresh
                 then st\<lparr>loadingSources := (loadingSources st)(sid \<mapsto> True)\<rparr> else st);
          st2 = (case fetched of
                   Some fetchedArticles \<Rightarrow>
                     st1\<lparr>articles := mergeArticles sid fetchedArticles (articles st1)\<rparr>
                 | None \<Rightarrow>
                     if \<not> isBackgroundRefresh
                     then st1\<lparr>articles := (articles st1)(sid \<mapsto> articlesOf (articles st1) sid)\<rparr>
                     else st1)
      in if \<not> isBackgroundRefresh
         then st2\<lparr>loadingSources := (loadingSources st2)(sid \<mapsto> False)\<rparr> else st2)"

section \<open>Unwrapping a fenced code block\<close>

text \<open>
  geminiService.ts, lines 100 to 102 (and again 136 to 138, 188 to 190):
  \<^verbatim>\<open>
  let text = response.text.trim();
  const match = text.match(/```(?:json)?\s*([\s\S]*?)\s*```/);
  if (match) text = match[1];\<close>
  The regular expression is matched as a backtracking matcher does it: at the leftmost
  position where some match starts, and there with the first alternative that succeeds,
  each greedy part trying its longest match first and the lazy group its shortest.
\<close>

definition fence :: jsstring where
  "fence = js ''```''"

text \<open>The rests that \<open>\s*\<close> can leave of \<open>s\<close>, in the order it tries them: longest match first.\<close>

definition afterSpaces :: "jsstring \<Rightarrow> jsstring list" where
  "afterSpaces s = map (\<lambda>k. drop k s) (rev [0 ..< Suc (length (takeWhile isWhiteSpace s))])"

text \<open>\<open>\s*```\<close> matches at the head of \<open>s\<close>.\<close>

definition closingFence :: "jsstring \<Rightarrow> bool" where
  "closingFence s = list_ex (\<lambda>r. startsWith r fence) (afterSpaces s)"

text \<open>
  \<open>([\s\S]*?)\s*```\<close> at the head of \<open>s\<close>: the group takes the fewest code units after
  which the closing part matches; the result is the text of the group.
\<close>

fun lazyCapture :: "jsstring \<Rightarrow> jsstring option" where
  "lazyCapture [] = (if closingFence [] then Some [] else None)"
| "lazyCapture (c # cs) =
     (if closingFence (c # cs) then Some [] else map_option ((#) c) (lazyCapture cs))"

text \<open>The rests that \<open>(?:json)?\<close> can leave, the match of \<open>json\<close> first.\<close>

definition afterJson :: "jsstring \<Rightarrow> jsstring list" where
  "afterJson s = (if startsWith s (js ''json'') then [drop 4 s, s] else [s])"

fun firstSome :: "'a option list \<Rightarrow> 'a option" where
  "firstSome [] = None"
| "firstSome (Some x # xs) = Some x"
| "firstSome (None # xs) = firstSome xs"

text \<open>The expression after its opening fence, matched at the head of \<open>s\<close>.\<close>

definition afterOpening :: "jsstring \<Rightarrow> jsstring option" where
  "afterOpening s = firstSome (map lazyCapture (concat (map afterSpaces (afterJson s))))"

text \<open>\<open>text.match(...)\<close>: the group of the leftmost match, or \<open>None\<close> for \<open>null\<close>.\<close>

fun fenceMatch :: "jsstring \<Rightarrow> jsstring option" where
  "fenceMatch [] = None"
| "fenceMatch (c # cs) =
     (case (if startsWith (c # cs) fence then afterOpening (drop 3 (c # cs)) else None) of
        Some inner \<Rightarrow> Some inner
      | None \<Rightarrow> fenceMatch cs)"

definition unwrapFence :: "jsstring \<Rightarrow> jsstring" where
  "unwrapFence responseText =
     (let text = trim responseText
      in case fenceMatch text of Some inner \<Rightarrow> inner | None \<Rightarrow> text)"

text \<open>
  Lines 104 to 108: the slice from the first \<open>[\<close> to the last \<open>]\<close>, or \<open>None\<close> where
  the source leaves the function because an index is \<open>-1\<close>.
  \<^verbatim>\<open>
  const arrayStartIndex = text.indexOf('[');
  const arrayEndIndex = text.lastIndexOf(']');
  if (arrayStartIndex === -1 || arrayEndIndex === -1) ...
  const jsonString = text.substring(arrayStartIndex, arrayEndIndex + 1);\<close>
\<close>

definition sliceArray :: "jsstring \<Rightarrow> jsstring option" where
  "sliceArray text =
     (let arrayStartIndex = indexOf text 91;
          arrayEndIndex = lastIndexOf text 93
      in if arrayStartIndex = -1 \<or> arrayEndIndex = -1 then None
         else Some (substring text arrayStartIndex (arrayEndIndex + 1)))"


section \<open>\<open>JSON.parse\<close>\<close>

text \<open>
  The values that \<open>JSON.parse\<close> returns. An object is the list of its properties in the
  order of their first occurrence in the text, a repeated key keeping the last value,
  as \<open>JSON.parse\<close> defines them. A number is kept as its token: no arithmetic is done
  on the parsed values. (JavaScript enumerates array-index keys of an object before the
  others; nothing here observes the order of the properties.)
\<close>

datatype jsvalue =
    JNull
  | JBool bool
  | JNumber jsstring
  | JString jsstring
  | JArray "jsvalue list"
  | JObject "(jsstring \<times> jsvalue) list"

text \<open>
  The grammar is that of ECMA-404. The text is cut into tokens: the white space between
  tokens is space, tab, line feed and carriage return; a string is closed by the next
  unescaped quote, may not contain a code unit below U+0020, and has the escapes
  \<open>\" \\ \/ \b \f \n \r \t\<close> and \<open>\uXXXX\<close>; a number is an optional minus, an
  integer part without a leading zero, an optional fraction and an optional exponent.
\<close>

datatype token =
    LBracket | RBracket | LBrace | RBrace | Comma | Colon
  | TString jsstring | TNumber jsstring | TTrue | TFalse | TNull

definition isDigit :: "nat \<Rightarrow> bool" where
  "isDigit u \<longleftrightarrow> 48 \<le> u \<and> u \<le> 57"

definition hexValue :: "nat \<Rightarrow> nat option" where
  "hexValue u =
     (if 48 \<le> u \<and> u \<le> 57 then Some (u - 48)
      else if 65 \<le> u \<and> u \<le> 70 then Some (u - 55)
      else if 97 \<le> u \<and> u \<le> 102 then Some (u - 87)
      else None)"

definition hex4 :: "nat \<Rightarrow> nat \<Rightarrow> nat \<Rightarrow> nat \<Rightarrow> nat option" where
  "hex4 a b c d =
     (case (hexValue a, hexValue b, hexValue c, hexValue d) of
        (Some x, Some y, Some z, Some w) \<Rightarrow> Some (((x * 16 + y) * 16 + z) * 16 + w)
      | _ \<Rightarrow> None)"

definition escapeUnit :: "nat \<Rightarrow> nat option" where
  "escapeUnit e =
     (if e = 34 then Some 34 else if e = 92 then Some 92 else if e = 47 then Some 47
      else if e = 98 then Some 8 else if e = 102 then Some 12 else if e = 110 then Some 10
      else if e = 114 then Some 13 else if e = 116 then Some 9 else None)"

definition consUnit :: "nat \<Rightarrow> (jsstring \<times> jsstring) option \<Rightarrow> (jsstring \<times> jsstring) option" where
  "consUnit u r = map_option (\<lambda>(s, rest). (u # s, rest)) r"

fun scanString :: "jsstring \<Rightarrow> (jsstring \<times> jsstring) option" where
  "scanString [] = None"
| "scanString (c # cs) =
     (if c = 34 then Some ([], cs)
      else if c = 92 then
        (case cs of
           [] \<Rightarrow> None
         | e # r \<Rightarrow>
             if e = 117 then
               (case r of
                  h1 # h2 # h3 # h4 # r' \<Rightarrow>
                    (case hex4 h1 h2 h3 h4 of
                       Some u \<Rightarrow> consUnit u (scanString r')
                     | None \<Rightarrow> None)
                | _ \<Rightarrow> None)
             else (case escapeUnit e of
                     Some u \<Rightarrow> consUnit u (scanString r)
                   | None \<Rightarrow> None))
      else if c < 32 then None
      else consUnit c (scanString cs))"

text \<open>digits+ at the head\<close>
definition scanDigits :: "jsstring \<Rightarrow> (jsstring \<times> jsstring) option" where
  "scanDigits s = (if takeWhile isDigit s = [] then None
                   else Some (takeWhile isDigit s, dropWhile isDigit s))"

definition scanInt :: "jsstring \<Rightarrow> (jsstring \<times> jsstring) option" where
  "scanInt s = (case s of
                  [] \<Rightarrow> None
                | d # r \<Rightarrow> if d = 48 then Some ([48], r) else scanDigits s)"

definition scanFraction :: "jsstring \<Rightarrow> (jsstring \<times> jsstring) option" where
  "scanFraction s = (case s of
                       [] \<Rightarrow> Some ([], s)
                     | d # r \<Rightarrow> if d = 46
                                then map_option (\<lambda>(ds, rest). (46 # ds, rest)) (scanDigits r)
                                else Some ([], s))"

definition scanExponent :: "jsstring \<Rightarrow> (jsstring \<times> jsstring) option" where
  "scanExponent s =
     (case s of
        [] \<Rightarrow> Some ([], s)
      | e # r \<Rightarrow>
          if e = 101 \<or> e = 69 then
            (case r of
               [] \<Rightarrow> None
             | g # r' \<Rightarrow>
                 if g = 43 \<or> g = 45
                 then map_option (\<lambda>(ds, rest). (e # g # ds, rest)) (scanDigits r')
                 else map_option (\<lambda>(ds, rest). (e # ds, rest)) (scanDigits r))
          else Some ([], s))"

definition scanNumber :: "jsstring \<Rightarrow> (jsstring \<times> jsstring) option" where
  "scanNumber s =
     (let (sign, s1) = (case s of [] \<Rightarrow> ([], s) | m # r \<Rightarrow> if m = 45 then ([45], r) else ([], s))
      in case scanInt s1 of
           None \<Rightarrow> None
         | Some (ip, s2) \<Rightarrow>
             (case scanFraction s2 of
                None \<Rightarrow> None
              | Some (fp, s3) \<Rightarrow>
                  (case scanExponent s3 of
                     None \<Rightarrow> None
                   | Some (ep, s4) \<Rightarrow> Some (sign @ ip @ fp @ ep, s4))))"


text \<open>Every scanner leaves less than it was given, so cutting into tokens terminates.\<close>

lemma scanString_shorter: "scanString s = Some (v, r) \<Longrightarrow> length r < length s"
proof (induction s arbitrary: v r rule: length_induct)
  case (1 s)
  then have IH: "\<And>ys v r. length ys < length s \<Longrightarrow> scanString ys = Some (v, r)
                   \<Longrightarrow> length r < length ys"
    by blast
  show ?case
  proof (cases s)
    case Nil
    with "1.prems" show ?thesis by simp
  next
    case (Cons c cs)
    have tail: "length r < length ys + k" if "scanString ys = Some (w, r)"
      and "length ys < length s" for ys w k
      using IH [OF that(2) that(1)] by simp
    from "1.prems" Cons show ?thesis
      by (auto simp: consUnit_def split: if_splits list.splits option.splits
            dest!: tail [where k = 0, simplified])
  qed
qed

lemma scanDigits_shorter: "scanDigits s = Some (d, r) \<Longrightarrow> length r < length s"
proof -
  assume a: "scanDigits s = Some (d, r)"
  then have ne: "takeWhile isDigit s \<noteq> []" and r: "r = dropWhile isDigit s"
    by (auto simp: scanDigits_def split: if_splits)
  from ne have "0 < length (takeWhile isDigit s)"
    by (cases "takeWhile isDigit s") simp_all
  moreover have "length (takeWhile isDigit s) + length (dropWhile isDigit s) = length s"
    by (metis length_append takeWhile_dropWhile_id)
  ultimately show ?thesis unfolding r by linarith
qed

lemma scanInt_shorter: "scanInt s = Some (d, r) \<Longrightarrow> length r < length s"
  by (auto simp: scanInt_def split: list.splits if_splits dest: scanDigits_shorter)

lemma scanFraction_le: "scanFraction s = Some (d, r) \<Longrightarrow> length r \<le> length s"
  by (fastforce simp: scanFraction_def split: list.splits if_splits dest: scanDigits_shorter)

lemma scanExponent_le: "scanExponent s = Some (d, r) \<Longrightarrow> length r \<le> length s"
  by (fastforce simp: scanExponent_def split: list.splits if_splits dest: scanDigits_shorter)

lemma scanNumber_shorter: "scanNumber s = Some (n, r) \<Longrightarrow> length r < length s"
  unfolding scanNumber_def
  by (fastforce split: list.splits if_splits option.splits prod.splits
        dest: scanInt_shorter scanFraction_le scanExponent_le)

function tokenize :: "jsstring \<Rightarrow> token list option" where
  "tokenize [] = Some []"
| "tokenize (c # cs) =
     (if c = 32 \<or> c = 9 \<or> c = 10 \<or> c = 13 then tokenize cs
      else if c = 91 then map_option ((#) LBracket) (tokenize cs)
      else if c = 93 then map_option ((#) RBracket) (tokenize cs)
      else if c = 123 then map_option ((#) LBrace) (tokenize cs)
      else if c = 125 then map_option ((#) RBrace) (tokenize cs)
      else if c = 44 then map_option ((#) Comma) (tokenize cs)
      else if c = 58 then map_option ((#) Colon) (tokenize cs)
      else if c = 34 then
        (case scanString cs of
           None \<Rightarrow> None
         | Some (s, rest) \<Rightarrow> map_option ((#) (TString s)) (tokenize rest))
      else if c = 45 \<or> isDigit c then
        (case scanNumber (c # cs) of
           None \<Rightarrow> None
         | Some (n, rest) \<Rightarrow> map_option ((#) (TNumber n)) (tokenize rest))
      else if startsWith (c # cs) (js ''true'') then
        map_option ((#) TTrue) (tokenize (drop 4 (c # cs)))
      else if startsWith (c # cs) (js ''false'') then
        map_option ((#) TFalse) (tokenize (drop 5 (c # cs)))
      else if startsWith (c # cs) (js ''null'') then
        map_option ((#) TNull) (tokenize (drop 4 (c # cs)))
      else None)"
  by pat_completeness auto
termination
proof (relation "measure length")
qed (auto dest: scanString_shorter scanNumber_shorter)

text \<open>
  The tokens are read by a pushdown automaton. A frame of its stack is an array with
  the elements read so far, or an object with the properties read so far and the key
  whose value is being read. The state says what may come next: a value; the first
  element of an array or its end; the first key of an object or its end; a key; the
  colon after a key; or, a value being complete, a comma or the end of the enclosing
  array or object.
\<close>

datatype frame =
    InArray "jsvalue list"
  | InObject "(jsstring \<times> jsvalue) list" jsstring

datatype pstate =
    PValue
  | PFirstElement
  | PFirstKey
  | PKey "(jsstring \<times> jsvalue) list"
  | PColon "(jsstring \<times> jsvalue) list" jsstring
  | PDone jsvalue

fun startValue :: "frame list \<Rightarrow> token \<Rightarrow> (pstate \<times> frame list) option" where
  "startValue stack LBracket = Some (PFirstElement, stack)"
| "startValue stack LBrace = Some (PFirstKey, stack)"
| "startValue stack (TString s) = Some (PDone (JString s), stack)"
| "startValue stack (TNumber n) = Some (PDone (JNumber n), stack)"
| "startValue stack TTrue = Some (PDone (JBool True), stack)"
| "startValue stack TFalse = Some (PDone (JBool False), stack)"
| "startValue stack TNull = Some (PDone JNull, stack)"
| "startValue stack t = None"

fun step :: "pstate \<Rightarrow> frame list \<Rightarrow> token \<Rightarrow> (pstate \<times> frame list) option" where
  "step PValue stack t = startValue stack t"
| "step PFirstElement stack RBracket = Some (PDone (JArray []), stack)"
| "step PFirstElement stack t = startValue (InArray [] # stack) t"
| "step PFirstKey stack RBrace = Some (PDone (JObject []), stack)"
| "step PFirstKey stack (TString k) = Some (PColon [] k, stack)"
| "step PFirstKey stack t = None"
| "step (PKey props) stack (TString k) = Some (PColon props k, stack)"
| "step (PKey props) stack t = None"
| "step (PColon props k) stack Colon = Some (PValue, InObject props k # stack)"
| "step (PColon props k) stack t = None"
| "step (PDone v) (InArray elems # stack) Comma = Some (PValue, InArray (elems @ [v]) # stack)"
| "step (PDone v) (InArray elems # stack) RBracket = Some (PDone (JArray (elems @ [v])), stack)"
| "step (PDone v) (InObject props k # stack) Comma = Some (PKey (AList.update k v props), stack)"
| "step (PDone v) (InObject props k # stack) RBrace =
     Some (PDone (JObject (AList.update k v props)), stack)"
| "step (PDone v) stack t = None"

fun run :: "pstate \<Rightarrow> frame list \<Rightarrow> token list \<Rightarrow> jsvalue option" where
  "run (PDone v) [] [] = Some v"
| "run st stack [] = None"
| "run st stack (t # ts) =
     (case step st stack t of
        None \<Rightarrow> None
      | Some (st', stack') \<Rightarrow> run st' stack' ts)"

text \<open>\<open>JSON.parse(text)\<close>: the value, or \<open>None\<close> where it throws a \<open>SyntaxError\<close>.\<close>

definition JSON_parse :: "jsstring \<Rightarrow> jsvalue option" where
  "JSON_parse text =
     (case tokenize text of
        None \<Rightarrow> None
      | Some ts \<Rightarrow> run PValue [] ts)"

section \<open>The calls to the AI provider\<close>

text \<open>
  \<open>interface YouTubeSearchParams\<close>; \<open>sortBy\<close> is \<open>'relevance' | 'date'\<close> and
  \<open>timeFrame\<close> is \<open>'any' | 'day' | 'week' | 'month' | 'year'\<close>.
\<close>

datatype SortBy = ByRelevance | ByDate

datatype TimeFrame = AnyTime | LastDay | LastWeek | LastMonth | LastYear

record YouTubeSearchParams =
  search_tags :: "jsstring list"
  sortBy :: SortBy
  timeFrame :: TimeFrame
  page :: nat

text \<open>
  A request to the proxy. Its body is a fixed prompt filled with the URL of the site or
  with the search parameters; it is represented by what fills the prompt.
\<close>

datatype request =
    SummarizeNews jsstring
  | GenerateTags jsstring
  | SearchVideos YouTubeSearchParams

text \<open>The places where the platform, not the source, throws.\<close>

datatype throwSite =
    TextUndefined
  | JsonSyntax jsstring
  | NotAnArray jsvalue
  | PropertyOfNull

text \<open>
  What the calls read of their platform:
  \<^item> \<open>callProxy\<close>: the outcome of \<open>callProxy\<close> for a request, a thrown error or the
    \<open>text\<close> of the response, \<open>None\<close> when the response has no \<open>text\<close>;
  \<^item> \<open>thrown\<close>: the error that the engine throws at a \<open>throwSite\<close> (its message is the
    engine's own);
  \<^item> \<open>ToString\<close>: the conversion to a string of a number, an array or an object in a
    template literal, or the error it throws;
  \<^item> \<open>caseTables\<close>: the case conversions of the engine beyond Latin-1.
\<close>

record AIPlatform =
  callProxy :: "request \<Rightarrow> error + jsstring option"
  thrown :: "throwSite \<Rightarrow> error"
  ToString :: "jsvalue \<Rightarrow> error + jsstring"
  caseTables :: CaseTables

text \<open>
  \<open>fetchAndSummarizeNews\<close>: the requests issued and the value returned. Every error is
  caught and answered by the empty array (lines 110 to 113).
\<close>

definition fetchAndSummarizeNews :: "AIPlatform \<Rightarrow> jsstring \<Rightarrow> request list \<times> jsvalue" where
  "fetchAndSummarizeNews p url =
     ([SummarizeNews url],
      (case callProxy p (SummarizeNews url) of
         Inl e \<Rightarrow> JArray []
       | Inr None \<Rightarrow> JArray []
       | Inr (Some responseText) \<Rightarrow>
           (case sliceArray (unwrapFence responseText) of
              None \<Rightarrow> JArray []
            | Some jsonString \<Rightarrow>
                (case JSON_parse jsonString of
                   None \<Rightarrow> JArray []
                 | Some parsed \<Rightarrow> parsed))))"

definition isJString :: "jsvalue \<Rightarrow> bool" where
  "isJString v = (case v of JString s \<Rightarrow> True | _ \<Rightarrow> False)"

text \<open>
  \<open>generateTagsForNewsSource\<close>. \<open>tags.map(tag => tag.charAt(0)...)\<close> throws a
  \<open>TypeError\<close> when \<open>tags\<close> is not an array or an element is not a string, since only
  a string has a method \<open>charAt\<close>; this error too is answered by the empty array.
\<close>

definition generateTagsForNewsSource :: "AIPlatform \<Rightarrow> jsstring \<Rightarrow> request list \<times> jsvalue" where
  "generateTagsForNewsSource p url =
     ([GenerateTags url],
      (case callProxy p (GenerateTags url) of
         Inl e \<Rightarrow> JArray []
       | Inr None \<Rightarrow> JArray []
       | Inr (Some responseText) \<Rightarrow>
           (case sliceArray (unwrapFence responseText) of
              None \<Rightarrow> JArray []
            | Some jsonString \<Rightarrow>
                (case JSON_parse jsonString of
                   Some (JArray parsed) \<Rightarrow>
                     if list_all isJString parsed
                     then JArray (map (\<lambda>tag. case tag of
                                                 JString s \<Rightarrow> JString (normalizeTag (caseTables p) s)
                                               | _ \<Rightarrow> tag) parsed)
                     else JArray []
                 | _ \<Rightarrow> JArray []))))"

text \<open>
  The own enumerable properties that the spread \<open>{...video}\<close> copies: those of an
  object, the elements of an array and the code units of a string under their indices,
  and none of a number, a boolean or \<open>null\<close>.
\<close>

definition spread :: "jsvalue \<Rightarrow> (jsstring \<times> jsvalue) list" where
  "spread v =
     (case v of
        JObject props \<Rightarrow> props
      | JArray elems \<Rightarrow> zip (map decimal [0 ..< length elems]) elems
      | JString s \<Rightarrow> zip (map decimal [0 ..< length s]) (map (\<lambda>u. JString [u]) s)
      | _ \<Rightarrow> [])"

text \<open>\<open>video.id\<close> for a value other than \<open>null\<close>; \<open>None\<close> is \<open>undefined\<close>.\<close>

definition idOf :: "jsvalue \<Rightarrow> jsvalue option" where
  "idOf video = (case video of JObject props \<Rightarrow> map_of props (js ''id'') | _ \<Rightarrow> None)"

text \<open>The text that a template literal \<open>${...}\<close> gives for a value.\<close>

definition templateText :: "AIPlatform \<Rightarrow> jsvalue option \<Rightarrow> error + jsstring" where
  "templateText p v =
     (case v of
        None \<Rightarrow> Inr (js ''undefined'')
      | Some JNull \<Rightarrow> Inr (js ''null'')
      | Some (JBool b) \<Rightarrow> Inr (if b then js ''true'' else js ''false'')
      | Some (JString s) \<Rightarrow> Inr s
      | Some other \<Rightarrow> ToString p other)"

text \<open>\<^verbatim>\<open>`https://i.ytimg.com/vi/${video.id}/hqdefault.jpg`\<close>\<close>

definition thumbnailUrlFor :: "jsstring \<Rightarrow> jsstring" where
  "thumbnailUrlFor idText = js ''https://i.ytimg.com/vi/'' @ idText @ js ''/hqdefault.jpg''"

text \<open>
  Lines 202 to 205, the function mapped over the parsed videos:
  \<^verbatim>\<open>video => ({ ...video, thumbnailUrl: `https://i.ytimg.com/vi/${video.id}/hqdefault.jpg` })\<close>
  Reading \<open>id\<close> of \<open>null\<close> throws.
\<close>

definition withThumbnail :: "AIPlatform \<Rightarrow> jsvalue \<Rightarrow> error + jsvalue" where
  "withThumbnail p video =
     (case video of
        JNull \<Rightarrow> Inl (thrown p PropertyOfNull)
      | _ \<Rightarrow>
          (case templateText p (idOf video) of
             Inl e \<Rightarrow> Inl e
           | Inr idText \<Rightarrow>
               Inr (JObject (AList.update (js ''thumbnailUrl'')
                      (JString (thumbnailUrlFor idText)) (spread video)))))"

text \<open>\<open>Array.prototype.map\<close> with a function that may throw: the first error ends it.\<close>

fun mapThrowing :: "('a \<Rightarrow> error + 'b) \<Rightarrow> 'a list \<Rightarrow> error + 'b list" where
  "mapThrowing f [] = Inr []"
| "mapThrowing f (x # xs) =
     (case f x of
        Inl e \<Rightarrow> Inl e
      | Inr y \<Rightarrow>
          (case mapThrowing f xs of
             Inl e \<Rightarrow> Inl e
           | Inr ys \<Rightarrow> Inr (y # ys)))"

text \<open>The \<open>try\<close> block of \<open>searchYouTubeVideos\<close>, lines 165 to 205.\<close>

definition searchAttempt :: "AIPlatform \<Rightarrow> YouTubeSearchParams \<Rightarrow> error + jsvalue" where
  "searchAttempt p params =
     (case callProxy p (SearchVideos params) of
        Inl e \<Rightarrow> Inl e
      | Inr None \<Rightarrow> Inl (thrown p TextUndefined)
      | Inr (Some responseText) \<Rightarrow>
          (case sliceArray (unwrapFence responseText) of
             None \<Rightarrow> Inl (Error (js ''The AI returned a response without a valid JSON array.''))
           | Some jsonString \<Rightarrow>
               (case JSON_parse jsonString of
                  None \<Rightarrow> Inl (thrown p (JsonSyntax jsonString))
                | Some (JArray videosFromAI) \<Rightarrow>
                    (case mapThrowing (withThumbnail p) videosFromAI of
                       Inl e \<Rightarrow> Inl e
                     | Inr videos \<Rightarrow> Inr (JArray videos))
                | Some other \<Rightarrow> Inl (thrown p (NotAnArray other)))))"

text \<open>
  Its \<open>catch\<close> block, lines 206 to 212:
  \<^verbatim>\<open>
  if (error instanceof Error && error.message.includes("The AI returned")) throw error;
  throw new Error("Failed to fetch YouTube videos. The AI may be unavailable or the request failed.");\<close>
\<close>

definition searchCatch :: "error \<Rightarrow> error" where
  "searchCatch e =
     (if str_includes (message e) (js ''The AI returned'') then e
      else Error (js ''Failed to fetch YouTube videos. The AI may be unavailable or the request failed.''))"

text \<open>
  \<open>searchYouTubeVideos\<close>: the requests issued, and the value returned or the error
  thrown. Line 161: \<^verbatim>\<open>if (tags.length === 0) return [];\<close>
\<close>

definition searchYouTubeVideos ::
  "AIPlatform \<Rightarrow> YouTubeSearchParams \<Rightarrow> request list \<times> (error + jsvalue)" where
  "searchYouTubeVideos p params =
     (if search_tags params = [] then ([], Inr (JArray []))
      else ([SearchVideos params],
            (case searchAttempt p params of
               Inl e \<Rightarrow> Inl (searchCatch e)
             | Inr videos \<Rightarrow> Inr videos)))"

section \<open>Shapes of responses and example inputs\<close>

text \<open>
  An array text as the prompts ask for it: it begins with \<open>[\<close> and ends with \<open>]\<close>.
\<close>

definition bracketed :: "jsstring \<Rightarrow> bool" where
  "bracketed arr \<longleftrightarrow> arr \<noteq> [] \<and> hd arr = 91 \<and> last arr = 93"

text \<open>
  Case conversions that, beyond Latin-1, know the basic Cyrillic letters: the capitals
  U+0410 to U+042F are 32 below their small letters, and U+0400 to U+040F are 80 below
  theirs. They stand for the conversions of an engine on the strings of Latin-1 and
  these letters.
\<close>

definition cyrillicUpper :: "nat \<Rightarrow> jsstring" where
  "cyrillicUpper u =
     (if u < 256 then upper_unit u
      else if 1072 \<le> u \<and> u \<le> 1103 then [u - 32]
      else if 1104 \<le> u \<and> u \<le> 1119 then [u - 80]
      else [u])"

definition cyrillicLower :: "nat \<Rightarrow> nat" where
  "cyrillicLower u =
     (if u < 256 then lower_unit u
      else if 1040 \<le> u \<and> u \<le> 1071 then u + 32
      else if 1024 \<le> u \<and> u \<le> 1039 then u + 80
      else u)"

definition cyrillicCase :: CaseTables where
  "cyrillicCase =
     \<lparr>upperBeyond = (\<lambda>s. concat (map cyrillicUpper s)), lowerBeyond = map cyrillicLower\<rparr>"

text \<open>
  A platform whose proxy answers every request with the given text. The values it gives
  for the engine's own errors and conversions are placeholders; the examples below do
  not reach them.
\<close>

definition answering :: "jsstring \<Rightarrow> AIPlatform" where
  "answering text =
     \<lparr>callProxy = (\<lambda>req. Inr (Some text)),
      thrown = (\<lambda>site. Error (js ''engine error'')),
      ToString = (\<lambda>v. Inr (js ''[object Object]'')),
      caseTables = cyrillicCase\<rparr>"

text \<open>
  The response of the end-to-end scenario of the specification: one video, in a fenced
  block tagged \<open>json\<close>.
\<close>

definition scenarioArray :: jsstring where
  "scenarioArray = js ''[{\"id\":\"x1\",\"title\":\"T\",\"channelTitle\":\"C\",\"publishedAt\":\"2024-01-01T00:00:00Z\",\"url\":\"u\",\"description\":\"d\"}]''"

definition scenarioVideo :: "(jsstring \<times> jsvalue) list" where
  "scenarioVideo =
     [(js ''id'', JString (js ''x1'')), (js ''title'', JString (js ''T'')),
      (js ''channelTitle'', JString (js ''C'')),
      (js ''publishedAt'', JString (js ''2024-01-01T00:00:00Z'')),
      (js ''url'', JString (js ''u'')), (js ''description'', JString (js ''d''))]"

definition scenarioResponse :: jsstring where
  "scenarioResponse = fence @ js ''json'' @ [10] @ scenarioArray @ [10] @ fence"

definition rustSearch :: YouTubeSearchParams where
  "rustSearch = \<lparr>search_tags = [js ''Rust''], sortBy = ByDate, timeFrame = LastWeek, page = 1\<rparr>"

text \<open>
  A valid array of one article whose summary quotes a command between triple backticks.
\<close>

definition snippetArray :: jsstring where
  "snippetArray = js ''[{\"title\":\"T\",\"summary\":\"run ```npm i``` first\",\"link\":\"u\"}]''"

text \<open>
  A platform for the update check of one repository, \<open>facebook/react\<close>: its time zone,
  what the network answers for the releases of that repository, and the time values of
  the dates it parses.
\<close>

definition reactUrl :: jsstring where
  "reactUrl = js ''https://github.com/facebook/react''"

definition platformWith ::
  "(int \<Rightarrow> int) \<times> (int \<Rightarrow> int) \<Rightarrow> (error + Response) \<Rightarrow> (jsstring \<times> int) list \<Rightarrow> Platform" where
  "platformWith zone response dates =
     \<lparr>URL_parse = (\<lambda>url. if url = reactUrl
                          then Some \<lparr>hostname = js ''github.com'', pathname = js ''/facebook/react''\<rparr>
                          else None),
      fetch = (\<lambda>url. if url = js ''https://api.github.com/repos/facebook/react/releases''
                      then response else Inl (Error (js ''Failed to fetch''))),
      Date_parse = map_of dates,
      LocalTZA_utc = fst zone,
      LocalTZA_local = snd zone\<rparr>"

text \<open>
  Two time zones. In UTC local time has no offset. In New York the clocks went back
  from UTC-4 to UTC-5 on 2026-11-01 at 06:00 UTC (time value 1793512800000), that is at
  the local time value 1793498400000; a local time of the repeated hour is taken with
  the earlier offset, as ECMA-262 prescribes.
\<close>

definition utcZone :: "(int \<Rightarrow> int) \<times> (int \<Rightarrow> int)" where
  "utcZone = ((\<lambda>t. 0), (\<lambda>t. 0))"

definition newYorkZone :: "(int \<Rightarrow> int) \<times> (int \<Rightarrow> int)" where
  "newYorkZone = ((\<lambda>t. if t < 1793512800000 then - 14400000 else - 18000000),
                  (\<lambda>t. if t < 1793498400000 then - 14400000 else - 18000000))"

text \<open>
  Two tracked repositories, a release of the first as the API lists it, and its snapshot
  as a tracked entry keeps it.
\<close>

definition react :: Repository where
  "react = \<lparr>repo_id = 10270250, fullName = js ''facebook/react'', repo_url = reactUrl,
            description = None, avatarUrl = js ''https://avatars.githubusercontent.com/u/69631'',
            hasUpdate = False, latestRelease = None\<rparr>"

definition vue :: Repository where
  "vue = \<lparr>repo_id = 11730342, fullName = js ''vuejs/vue'', repo_url = js ''https://github.com/vuejs/vue'',
          description = None, avatarUrl = js ''https://avatars.githubusercontent.com/u/6128107'',
          hasUpdate = True, latestRelease = None\<rparr>"

definition releaseAt :: "jsstring \<Rightarrow> GitHubRelease" where
  "releaseAt published =
     \<lparr>name = js ''19.0.0'', tag_name = js ''v19.0.0'', published_at = published,
      html_url = js ''https://github.com/facebook/react/releases/tag/v19.0.0''\<rparr>"

definition snapshotAt :: "jsstring \<Rightarrow> Release" where
  "snapshotAt published =
     \<lparr>rel_name = js ''19.0.0'', rel_tagName = js ''v19.0.0'', rel_publishedAt = published,
      rel_url = js ''https://github.com/facebook/react/releases/tag/v19.0.0''\<rparr>"

definition serving :: "GitHubRelease list \<Rightarrow> error + Response" where
  "serving releases = Inr \<lparr>ok = True, json = Inr releases\<rparr>"

text \<open>
  A platform for the update checks of both repositories, with what the network answers
  for the releases of each, and a release of the second repository with its snapshot.
\<close>

definition twoRepositories ::
  "(int \<Rightarrow> int) \<times> (int \<Rightarrow> int) \<Rightarrow> (error + Response) \<Rightarrow> (error + Response)
     \<Rightarrow> (jsstring \<times> int) list \<Rightarrow> Platform" where
  "twoRepositories zone reactResponse vueResponse dates =
     \<lparr>URL_parse = (\<lambda>url. if url = reactUrl
                          then Some \<lparr>hostname = js ''github.com'', pathname = js ''/facebook/react''\<rparr>
                          else if url = js ''https://github.com/vuejs/vue''
                          then Some \<lparr>hostname = js ''github.com'', pathname = js ''/vuejs/vue''\<rparr>
                          else None),
      fetch = (\<lambda>url. if url = js ''https://api.github.com/repos/facebook/react/releases''
                      then reactResponse
                      else if url = js ''https://api.github.com/repos/vuejs/vue/releases''
                      then vueResponse
                      else Inl (Error (js ''Failed to fetch''))),
      Date_parse = map_of dates,
      LocalTZA_utc = fst zone,
      LocalTZA_local = snd zone\<rparr>"

definition vueReleaseAt :: "jsstring \<Rightarrow> GitHubRelease" where
  "vueReleaseAt published =
     \<lparr>name = js ''2.7.16'', tag_name = js ''v2.7.16'', published_at = published,
      html_url = js ''https://github.com/vuejs/vue/releases/tag/v2.7.16''\<rparr>"

definition vueSnapshotAt :: "jsstring \<Rightarrow> Release" where
  "vueSnapshotAt published =
     \<lparr>rel_name = js ''2.7.16'', rel_tagName = js ''v2.7.16'', rel_publishedAt = published,
      rel_url = js ''https://github.com/vuejs/vue/releases/tag/v2.7.16''\<rparr>"

text \<open>
  Two articles with different links, and the state of a news panel that has fetched
  nothing yet.
\<close>

definition story :: NewsArticle where
  "story = \<lparr>title = js ''Release notes'', summary = js ''What is new'', link = js ''https://example.com/a''\<rparr>"

definition otherStory :: NewsArticle where
  "otherStory = \<lparr>title = js ''Roadmap'', summary = js ''What comes next'', link = js ''https://example.com/b''\<rparr>"

definition emptyNews :: NewsState where
  "emptyNews = \<lparr>articles = Map.empty, loadingSources = Map.empty\<rparr>"

section \<open>Properties of the tag normalization\<close>

lemma lower_unit_idem: "lower_unit (lower_unit u) = lower_unit u"
  by (simp add: lower_unit_def)

lemma lower_unit_latin1: "u < 256 \<Longrightarrow> lower_unit u < 256"
  by (simp add: lower_unit_def)

lemma toUpperCase_latin1: "latin1 s \<Longrightarrow> toUpperCase U s = concat (map upper_unit s)"
  by (simp add: toUpperCase_def)

lemma toLowerCase_latin1: "latin1 s \<Longrightarrow> toLowerCase U s = map lower_unit s"
  by (simp add: toLowerCase_def)

lemma toLowerCase_latin1_idem:
  assumes "latin1 s"
  shows "toLowerCase U (toLowerCase U s) = toLowerCase U s"
proof -
  from assms have "latin1 (map lower_unit s)"
    by (simp add: latin1_def list_all_iff lower_unit_latin1)
  with assms show ?thesis
    by (simp add: toLowerCase_latin1 lower_unit_idem)
qed

lemma upper_unit_single:
  assumes "u < 256" and "u \<noteq> 181" and "u \<noteq> 223" and "u \<noteq> 255"
  shows "\<exists>v. v < 256 \<and> upper_unit u = [v] \<and> upper_unit v = [v]"
proof -
  consider (small) "97 \<le> u \<and> u \<le> 122" | (accented) "224 \<le> u \<and> u \<le> 254 \<and> u \<noteq> 247"
    | (other) "\<not> (97 \<le> u \<and> u \<le> 122) \<and> \<not> (224 \<le> u \<and> u \<le> 254 \<and> u \<noteq> 247)"
    by blast
  then show ?thesis
  proof cases
    case small
    define v where "v = u - 32"
    with small have b: "65 \<le> v" "v \<le> 90" by arith+
    from small have "upper_unit u = [v]" by (simp add: upper_unit_def v_def)
    moreover from b have "upper_unit v = [v]" by (simp add: upper_unit_def)
    moreover from b have "v < 256" by simp
    ultimately show ?thesis by blast
  next
    case accented
    define v where "v = u - 32"
    with accented have b: "192 \<le> v" "v \<le> 222" by arith+
    from accented have "upper_unit u = [v]" by (simp add: upper_unit_def v_def)
    moreover from b have "upper_unit v = [v]" by (simp add: upper_unit_def)
    moreover from b have "v < 256" by simp
    ultimately show ?thesis by blast
  next
    case other
    with assms have "upper_unit u = [u]" by (auto simp: upper_unit_def)
    with assms(1) show ?thesis by blast
  qed
qed

lemma normalizeTag_Nil: "normalizeTag U [] = []"
  by (simp add: normalizeTag_def charAt0_def slice1_def toUpperCase_def toLowerCase_def
        latin1_def)

lemma normalizeTag_Cons:
  "normalizeTag U (u # us) = toUpperCase U [u] @ toLowerCase U us"
  by (simp add: normalizeTag_def charAt0_def slice1_def)

lemma normalizeTag_idem_single:
  assumes "toUpperCase U [u] = [v]" and "toUpperCase U [v] = [v]"
    and "toLowerCase U (toLowerCase U us) = toLowerCase U us"
  shows "normalizeTag U (normalizeTag U (u # us)) = normalizeTag U (u # us)"
  using assms by (simp add: normalizeTag_Cons)

lemma normalizeTag_idem_latin1:
  assumes "latin1 (u # us)" and "u \<noteq> 181" and "u \<noteq> 223" and "u \<noteq> 255"
  shows "normalizeTag U (normalizeTag U (u # us)) = normalizeTag U (u # us)"
proof -
  from assms(1) have u: "u < 256" and us: "latin1 us" by (simp_all add: latin1_def)
  from upper_unit_single [OF u assms(2,3,4)] obtain v
    where v: "v < 256" "upper_unit u = [v]" "upper_unit v = [v]" by blast
  have "toUpperCase U [u] = [v]"
    using u v by (simp add: toUpperCase_def latin1_def)
  moreover have "toUpperCase U [v] = [v]"
    using v by (simp add: toUpperCase_def latin1_def)
  moreover have "toLowerCase U (toLowerCase U us) = toLowerCase U us"
    using us by (rule toLowerCase_latin1_idem)
  ultimately show ?thesis by (rule normalizeTag_idem_single)
qed

lemma normalizeTag_idem_stable:
  assumes "idempotentCase U" and "length (toUpperCase U (take 1 tag)) = length (take 1 tag)"
  shows "normalizeTag U (normalizeTag U tag) = normalizeTag U tag"
proof (cases tag)
  case Nil
  then show ?thesis by (simp add: normalizeTag_Nil)
next
  case (Cons u us)
  with assms(2) have "length (toUpperCase U [u]) = 1" by simp
  then obtain v where v: "toUpperCase U [u] = [v]"
    by (cases "toUpperCase U [u]") auto
  from assms(1) have "toUpperCase U (toUpperCase U [u]) = toUpperCase U [u]"
    by (simp add: idempotentCase_def)
  with v have "toUpperCase U [v] = [v]" by simp
  moreover from assms(1) have "toLowerCase U (toLowerCase U us) = toLowerCase U us"
    by (simp add: idempotentCase_def)
  ultimately show ?thesis
    unfolding Cons using v by (intro normalizeTag_idem_single)
qed

text \<open>The example conversions, which know Latin-1 and basic Cyrillic, convert unit by unit.\<close>

lemma toUpperCase_cyrillic: "toUpperCase cyrillicCase s = concat (map cyrillicUpper s)"
proof -
  have "concat (map upper_unit s) = concat (map cyrillicUpper s)" if "latin1 s"
  proof -
    from that have "\<forall>x. x \<in> set s \<longrightarrow> upper_unit x = cyrillicUpper x"
      by (simp add: latin1_def list_all_iff cyrillicUpper_def)
    then show ?thesis
      by (induction s) simp_all
  qed
  then show ?thesis by (simp add: toUpperCase_def cyrillicCase_def)
qed

lemma toLowerCase_cyrillic: "toLowerCase cyrillicCase s = map cyrillicLower s"
proof -
  have "map lower_unit s = map cyrillicLower s" if "latin1 s"
    using that by (simp add: latin1_def list_all_iff cyrillicLower_def)
  then show ?thesis by (simp add: toLowerCase_def cyrillicCase_def)
qed

lemma cyrillicUpper_fixed: "v \<in> set (cyrillicUpper u) \<Longrightarrow> cyrillicUpper v = [v]"
  by (auto simp: cyrillicUpper_def upper_unit_def split: if_splits)

lemma concat_fixed: "(\<And>v. v \<in> set xs \<Longrightarrow> f v = [v]) \<Longrightarrow> concat (map f xs) = xs"
  by (induction xs) simp_all

lemma cyrillicLower_idem: "cyrillicLower (cyrillicLower u) = cyrillicLower u"
  by (simp add: cyrillicLower_def lower_unit_def)

lemma idempotentCase_cyrillic: "idempotentCase cyrillicCase"
proof -
  have "concat (map cyrillicUpper (concat (map cyrillicUpper s))) = concat (map cyrillicUpper s)"
    for s
    by (rule concat_fixed) (auto dest: cyrillicUpper_fixed)
  then show ?thesis
    by (simp add: idempotentCase_def toUpperCase_cyrillic toLowerCase_cyrillic cyrillicLower_idem)
qed

text \<open>
  C8, as claimed, fails: the sharp s upper-cases to two letters, and the second of them
  is lower-cased by the next normalization: \<open>"\<ss>"\<close> becomes \<open>"SS"\<close>, and \<open>"SS"\<close>
  becomes \<open>"Ss"\<close>. (The tables of Latin-1 decide this; the engine's further tables do not
  enter.)
\<close>

theorem normalizeTag_not_idempotent:
  "normalizeTag cyrillicCase [223] = js ''SS''
   \<and> normalizeTag cyrillicCase (js ''SS'') = js ''Ss''
   \<and> normalizeTag cyrillicCase (normalizeTag cyrillicCase [223]) \<noteq> normalizeTag cyrillicCase [223]"
  by (simp add: normalizeTag_Cons toUpperCase_cyrillic toLowerCase_cyrillic js_def
        cyrillicUpper_def cyrillicLower_def upper_unit_def lower_unit_def)

text \<open>
  C8, amended. The normalization of a tag is its first code unit upper-cased followed by
  the remainder lower-cased, with the conversions of the engine; on a tag of code units
  below U+0100 these are the conversions of the Latin-1 tables. The normalization is
  idempotent on every tag whose first code unit upper-cases to a single code unit (the
  conversions of the engine being idempotent, as the Unicode conversions are), and, for
  any engine, on every tag of code units below U+0100 that does not begin with the
  micro sign, the sharp s or y with diaeresis. \<open>"AI"\<close>, \<open>"ai"\<close> and \<open>"Ai"\<close> all
  normalize to \<open>"Ai"\<close>.
\<close>

theorem normalizeTag_idempotent:
  "normalizeTag U tag = toUpperCase U (take 1 tag) @ toLowerCase U (drop 1 tag)
   \<and> (latin1 tag
        \<longrightarrow> normalizeTag U tag = concat (map upper_unit (take 1 tag)) @ map lower_unit (drop 1 tag))
   \<and> (idempotentCase U \<and> length (toUpperCase U (take 1 tag)) = length (take 1 tag)
        \<longrightarrow> normalizeTag U (normalizeTag U tag) = normalizeTag U tag)
   \<and> (latin1 tag \<and> take 1 tag \<noteq> [181] \<and> take 1 tag \<noteq> [223] \<and> take 1 tag \<noteq> [255]
        \<longrightarrow> normalizeTag U (normalizeTag U tag) = normalizeTag U tag)
   \<and> normalizeTag U (js ''AI'') = js ''Ai''
   \<and> normalizeTag U (js ''ai'') = js ''Ai''
   \<and> normalizeTag U (js ''Ai'') = js ''Ai''"
proof (intro conjI impI)
  show "normalizeTag U tag = toUpperCase U (take 1 tag) @ toLowerCase U (drop 1 tag)"
    by (simp add: normalizeTag_def charAt0_def slice1_def)
next
  assume l: "latin1 tag"
  then have "latin1 (take 1 tag)" and "latin1 (drop 1 tag)"
    by (cases tag; simp add: latin1_def)+
  then show "normalizeTag U tag
               = concat (map upper_unit (take 1 tag)) @ map lower_unit (drop 1 tag)"
    by (simp add: normalizeTag_def charAt0_def slice1_def toUpperCase_latin1 toLowerCase_latin1)
next
  assume "idempotentCase U \<and> length (toUpperCase U (take 1 tag)) = length (take 1 tag)"
  then show "normalizeTag U (normalizeTag U tag) = normalizeTag U tag"
    by (simp add: normalizeTag_idem_stable)
next
  assume "latin1 tag \<and> take 1 tag \<noteq> [181] \<and> take 1 tag \<noteq> [223] \<and> take 1 tag \<noteq> [255]"
  then show "normalizeTag U (normalizeTag U tag) = normalizeTag U tag"
    by (cases tag) (simp_all add: normalizeTag_Nil normalizeTag_idem_latin1)
next
  show "normalizeTag U (js ''AI'') = js ''Ai''"
    by (simp add: js_def normalizeTag_Cons toUpperCase_def toLowerCase_def latin1_def
          upper_unit_def lower_unit_def)
next
  show "normalizeTag U (js ''ai'') = js ''Ai''"
    by (simp add: js_def normalizeTag_Cons toUpperCase_def toLowerCase_def latin1_def
          upper_unit_def lower_unit_def)
next
  show "normalizeTag U (js ''Ai'') = js ''Ai''"
    by (simp add: js_def normalizeTag_Cons toUpperCase_def toLowerCase_def latin1_def
          upper_unit_def lower_unit_def)
qed

text \<open>
  Two tags: \<open>gitHub\<close>, of Latin-1, and a Cyrillic word written with a small first letter
  and capitals after it (U+043D, U+041E, U+0412, U+041E, U+0421, U+0422, U+0418), which
  is normalized to its capital U+041D and small letters.
\<close>

theorem normalizeTag_idempotent_witness:
  "latin1 (js ''gitHub'') \<and> take 1 (js ''gitHub'') \<noteq> [181] \<and> take 1 (js ''gitHub'') \<noteq> [223]
   \<and> take 1 (js ''gitHub'') \<noteq> [255]
   \<and> normalizeTag cyrillicCase (js ''gitHub'') = js ''Github''
   \<and> normalizeTag cyrillicCase (normalizeTag cyrillicCase (js ''gitHub''))
       = normalizeTag cyrillicCase (js ''gitHub'')
   \<and> idempotentCase cyrillicCase
   \<and> length (toUpperCase cyrillicCase (take 1 [1085, 1054, 1042, 1054, 1057, 1058, 1048]))
       = length (take 1 [1085, 1054, 1042, 1054, 1057, 1058, 1048 :: nat])
   \<and> normalizeTag cyrillicCase [1085, 1054, 1042, 1054, 1057, 1058, 1048]
       = [1053, 1086, 1074, 1086, 1089, 1090, 1080]
   \<and> normalizeTag cyrillicCase (normalizeTag cyrillicCase [1085, 1054, 1042, 1054, 1057, 1058, 1048])
       = normalizeTag cyrillicCase [1085, 1054, 1042, 1054, 1057, 1058, 1048]"
proof -
  let ?w = "[1085, 1054, 1042, 1054, 1057, 1058, 1048] :: jsstring"
  have h: "latin1 (js ''gitHub'') \<and> take 1 (js ''gitHub'') \<noteq> [181]
           \<and> take 1 (js ''gitHub'') \<noteq> [223] \<and> take 1 (js ''gitHub'') \<noteq> [255]"
    by (simp add: js_def latin1_def)
  note g = normalizeTag_idempotent [of cyrillicCase "js ''gitHub''"]
  from g h have g1: "normalizeTag cyrillicCase (js ''gitHub'')
      = concat (map upper_unit (take 1 (js ''gitHub''))) @ map lower_unit (drop 1 (js ''gitHub''))"
    by blast
  then have v: "normalizeTag cyrillicCase (js ''gitHub'') = js ''Github''"
    by (simp add: js_def upper_unit_def lower_unit_def)
  from g h have g2: "normalizeTag cyrillicCase (normalizeTag cyrillicCase (js ''gitHub''))
      = normalizeTag cyrillicCase (js ''gitHub'')"
    by blast
  have i: "idempotentCase cyrillicCase" by (rule idempotentCase_cyrillic)
  have l: "length (toUpperCase cyrillicCase (take 1 ?w)) = length (take 1 ?w)"
    by (simp add: toUpperCase_cyrillic cyrillicUpper_def)
  have n: "normalizeTag cyrillicCase ?w = [1053, 1086, 1074, 1086, 1089, 1090, 1080]"
    by (simp add: normalizeTag_Cons toUpperCase_cyrillic toLowerCase_cyrillic
          cyrillicUpper_def cyrillicLower_def)
  from normalizeTag_idempotent [of cyrillicCase ?w] i l
  have w2: "normalizeTag cyrillicCase (normalizeTag cyrillicCase ?w) = normalizeTag cyrillicCase ?w"
    by blast
  from h v g2 i l n w2 show ?thesis by blast
qed

section \<open>Properties of the slicing\<close>

lemma indexOf_ge: "indexOf s u \<ge> -1"
  by (induction s) (auto simp: Let_def)

lemma indexOf_none: "indexOf s u = -1 \<longleftrightarrow> u \<notin> set s"
proof (induction s)
  case Nil
  then show ?case by simp
next
  case (Cons c cs)
  have "indexOf cs u \<ge> -1" by (rule indexOf_ge)
  with Cons show ?case by (auto simp: Let_def)
qed

lemma indexOf_first: "u \<notin> set a \<Longrightarrow> indexOf (a @ u # r) u = int (length a)"
  by (induction a) (auto simp: Let_def)

lemma lastIndexOf_none: "lastIndexOf s u = -1 \<longleftrightarrow> u \<notin> set s"
proof -
  have "indexOf (rev s) u \<le> int (length s) - 1 \<or> True" by simp
  have le: "\<And>t. indexOf t u < int (length t)"
    subgoal for t by (induction t) (auto simp: Let_def)
    done
  from le [of "rev s"] show ?thesis
    using indexOf_none [of "rev s" u] by (auto simp: lastIndexOf_def Let_def)
qed

lemma lastIndexOf_last: "u \<notin> set b \<Longrightarrow> lastIndexOf (a @ u # b) u = int (length a)"
  using indexOf_first [of u "rev b" "rev a"]
  by (simp add: lastIndexOf_def Let_def)

lemma sliceArray_None: "sliceArray w = None \<longleftrightarrow> 91 \<notin> set w \<or> 93 \<notin> set w"
  by (simp add: sliceArray_def Let_def indexOf_none lastIndexOf_none)

lemma sliceArray_found:
  assumes "91 \<notin> set a" and "93 \<notin> set b"
  shows "sliceArray (a @ 91 # mid @ 93 # b) = Some (91 # mid @ [93])"
proof -
  have i: "indexOf (a @ 91 # mid @ 93 # b) 91 = int (length a)"
    using assms(1) by (rule indexOf_first)
  have "lastIndexOf ((a @ 91 # mid) @ 93 # b) 93 = int (length (a @ 91 # mid))"
    using assms(2) by (rule lastIndexOf_last)
  then have j: "lastIndexOf (a @ 91 # mid @ 93 # b) 93 = int (length a) + 1 + int (length mid)"
    by simp
  have k: "nat (2 + int (length mid)) = Suc (Suc (length mid))"
    by simp
  show ?thesis
    by (simp add: sliceArray_def Let_def i j substring_def min_def max_def k)
qed

lemma bracketedD:
  assumes "bracketed arr"
  shows "\<exists>mid. arr = 91 # mid @ [93]"
proof -
  from assms obtain t where t: "arr = 91 # t" and l: "last arr = 93"
    by (cases arr) (auto simp: bracketed_def)
  from t l have "t \<noteq> []" by auto
  with t l have "t = butlast t @ [93]"
    by (metis append_butlast_last_id last_ConsR)
  with t show ?thesis by blast
qed

section \<open>Properties of the unwrapping\<close>

lemma startsWith_iff: "startsWith s p \<longleftrightarrow> (\<exists>r. s = p @ r)"
  by (induction s p rule: startsWith.induct) auto

lemma str_includes_iff: "str_includes s p \<longleftrightarrow> (\<exists>a c. s = a @ p @ c)"
proof (induction s)
  case Nil
  then show ?case by auto
next
  case (Cons x xs)
  show ?case
  proof
    assume "str_includes (x # xs) p"
    then consider "startsWith (x # xs) p" | "str_includes xs p" by auto
    then show "\<exists>a c. x # xs = a @ p @ c"
    proof cases
      case 1
      then obtain r where "x # xs = p @ r" by (auto simp: startsWith_iff)
      then have "x # xs = [] @ p @ r" by simp
      then show ?thesis by blast
    next
      case 2
      with Cons obtain a c where "xs = a @ p @ c" by blast
      then have "x # xs = (x # a) @ p @ c" by simp
      then show ?thesis by blast
    qed
  next
    assume "\<exists>a c. x # xs = a @ p @ c"
    then obtain a c where e: "x # xs = a @ p @ c" by blast
    show "str_includes (x # xs) p"
    proof (cases a)
      case Nil
      with e have "startsWith (x # xs) p" by (auto simp: startsWith_iff)
      then show ?thesis by simp
    next
      case (Cons y ys)
      with e have "xs = ys @ p @ c" by simp
      with Cons.IH have "str_includes xs p" by blast
      then show ?thesis by simp
    qed
  qed
qed

lemma fence_units: "fence = [96, 96, 96]"
  by (simp add: fence_def js_def)

lemma fenceMatch_None: "\<not> str_includes t fence \<Longrightarrow> fenceMatch t = None"
  by (induction t) auto

lemma fenceMatch_skip: "96 \<notin> set a \<Longrightarrow> fenceMatch (a @ t) = fenceMatch t"
  by (induction a) (auto simp: fence_units)

lemma not_ws_96: "\<not> isWhiteSpace 96" "\<not> isWhiteSpace 91" "\<not> isWhiteSpace 93" "\<not> isWhiteSpace 106"
  by (simp_all add: isWhiteSpace_def)

lemma startsWith_ws: "s \<noteq> [] \<Longrightarrow> isWhiteSpace (hd s) \<Longrightarrow> \<not> startsWith s fence"
  by (cases s) (auto simp: fence_units not_ws_96)

lemma closingFence_iff: "closingFence s \<longleftrightarrow> startsWith (dropWhile isWhiteSpace s) fence"
proof -
  let ?n = "length (takeWhile isWhiteSpace s)"
  have early: "\<not> startsWith (drop k s) fence" if "k < ?n" for k
  proof -
    from that have "k < length s"
      by (meson length_takeWhile_le less_le_trans)
    then have "drop k s \<noteq> []" by simp
    moreover have "hd (drop k s) = s ! k"
      using \<open>k < length s\<close> by (simp add: hd_drop_conv_nth)
    moreover have "isWhiteSpace (s ! k)"
      using that by (metis nth_mem set_takeWhileD takeWhile_nth)
    ultimately show ?thesis by (simp add: startsWith_ws)
  qed
  have last: "drop ?n s = dropWhile isWhiteSpace s"
    by (simp add: dropWhile_eq_drop)
  have "closingFence s \<longleftrightarrow>
          startsWith (drop ?n s) fence \<or> (\<exists>r < ?n. startsWith (drop r s) fence)"
    by (auto simp: closingFence_def afterSpaces_def list_ex_iff)
  also have "\<dots> \<longleftrightarrow> startsWith (drop ?n s) fence"
    using early by blast
  finally show ?thesis by (simp add: last)
qed

lemma lazyCapture_found:
  assumes "closingFence rest"
    and "\<And>i. i < length xs \<Longrightarrow> \<not> closingFence (drop i xs @ rest)"
  shows "lazyCapture (xs @ rest) = Some xs"
  using assms
proof (induction xs)
  case Nil
  then show ?case by (cases rest) auto
next
  case (Cons x xs)
  from Cons.prems(2) [of 0] have n: "\<not> closingFence (x # xs @ rest)" by simp
  have "\<And>i. i < length xs \<Longrightarrow> \<not> closingFence (drop i xs @ rest)"
    using Cons.prems(2) [of "Suc _"] by simp
  with Cons.IH Cons.prems(1) have "lazyCapture (xs @ rest) = Some xs" by blast
  with n show ?case by simp
qed

lemma dropWhile_stop: "\<not> P x \<Longrightarrow> dropWhile P (a @ x # r) = dropWhile P a @ x # r"
  by (induction a) auto

lemma trim_between:
  assumes "\<not> isWhiteSpace x" and "\<not> isWhiteSpace y"
  shows "trim (a @ x # m @ y # b)
           = dropWhile isWhiteSpace a @ x # m @ y # rev (dropWhile isWhiteSpace (rev b))"
proof -
  have "dropWhile isWhiteSpace (a @ x # m @ y # b) = dropWhile isWhiteSpace a @ x # m @ y # b"
    using assms(1) by (rule dropWhile_stop)
  moreover have "dropWhile isWhiteSpace (rev b @ y # rev m @ x # rev (dropWhile isWhiteSpace a))
                   = dropWhile isWhiteSpace (rev b) @ y # rev m @ x # rev (dropWhile isWhiteSpace a)"
    using assms(2) by (rule dropWhile_stop)
  ultimately show ?thesis by (simp add: trim_def)
qed

lemma trim_decompose:
  "\<exists>l r. s = l @ trim s @ r"
proof -
  have "s = takeWhile isWhiteSpace s @ dropWhile isWhiteSpace s" by simp
  moreover have "rev (dropWhile isWhiteSpace s)
       = takeWhile isWhiteSpace (rev (dropWhile isWhiteSpace s))
         @ dropWhile isWhiteSpace (rev (dropWhile isWhiteSpace s))" by simp
  then have "dropWhile isWhiteSpace s
       = trim s @ rev (takeWhile isWhiteSpace (rev (dropWhile isWhiteSpace s)))"
    unfolding trim_def by (metis rev_append rev_rev_ident)
  ultimately have "s = takeWhile isWhiteSpace s @ trim s
                       @ rev (takeWhile isWhiteSpace (rev (dropWhile isWhiteSpace s)))"
    by simp
  then show ?thesis by blast
qed

lemma no_fence_trim: "\<not> str_includes s fence \<Longrightarrow> \<not> str_includes (trim s) fence"
proof
  assume n: "\<not> str_includes s fence" and "str_includes (trim s) fence"
  then obtain a c where t: "trim s = a @ fence @ c" by (auto simp: str_includes_iff)
  obtain l r where "s = l @ trim s @ r" using trim_decompose by blast
  with t have "s = (l @ a) @ fence @ (c @ r)" by simp
  then have "str_includes s fence" unfolding str_includes_iff by blast
  with n show False by simp
qed

lemma unwrapFence_plain: "\<not> str_includes s fence \<Longrightarrow> unwrapFence s = trim s"
  by (simp add: unwrapFence_def Let_def fenceMatch_None no_fence_trim)

lemma slice_in_prose:
  assumes "bracketed arr" and "91 \<notin> set pre" and "93 \<notin> set post"
    and "\<not> str_includes (pre @ arr @ post) fence"
  shows "sliceArray (unwrapFence (pre @ arr @ post)) = Some arr"
proof -
  from assms(1) obtain mid where arr: "arr = 91 # mid @ [93]"
    using bracketedD by blast
  have "trim (pre @ 91 # mid @ 93 # post)
          = dropWhile isWhiteSpace pre @ 91 # mid @ 93 # rev (dropWhile isWhiteSpace (rev post))"
    by (rule trim_between) (simp_all add: not_ws_96)
  then have t: "unwrapFence (pre @ arr @ post)
          = dropWhile isWhiteSpace pre @ 91 # mid @ 93 # rev (dropWhile isWhiteSpace (rev post))"
    using assms(4) by (simp add: unwrapFence_plain arr)
  have "91 \<notin> set (dropWhile isWhiteSpace pre)"
    using assms(2) by (meson set_dropWhileD)
  moreover have "93 \<notin> set (rev (dropWhile isWhiteSpace (rev post)))"
    using assms(3) by (metis set_dropWhileD set_rev)
  ultimately have "sliceArray (dropWhile isWhiteSpace pre @ 91 # mid @ 93
                      # rev (dropWhile isWhiteSpace (rev post))) = Some (91 # mid @ [93])"
    by (rule sliceArray_found)
  with t show ?thesis by (simp add: arr)
qed

lemma takeWhile_ws_prefix:
  assumes "list_all isWhiteSpace w" and "\<not> isWhiteSpace x"
  shows "takeWhile isWhiteSpace (w @ x # r) = w"
  using assms by (induction w) auto

lemma dropWhile_ws_prefix:
  assumes "list_all isWhiteSpace w" and "\<not> isWhiteSpace x"
  shows "dropWhile isWhiteSpace (w @ x # r) = x # r"
  using assms by (induction w) auto

lemma afterSpaces_hd:
  assumes "list_all isWhiteSpace w" and "\<not> isWhiteSpace x"
  shows "\<exists>others. afterSpaces (w @ x # r) = (x # r) # others"
  by (simp add: afterSpaces_def takeWhile_ws_prefix [OF assms])

lemma no_early_close:
  assumes arr: "arr = 91 # mid @ [93]" and nf: "\<not> str_includes arr fence"
    and i: "i < length arr"
  shows "\<not> closingFence (drop i arr @ R)"
proof
  assume c: "closingFence (drop i arr @ R)"
  let ?d0 = "drop i arr"
  from i have ne: "?d0 \<noteq> []" by simp
  have "last ?d0 = 93" using i arr by simp
  with ne have d0: "?d0 = butlast ?d0 @ [93]"
    by (metis append_butlast_last_id)
  have dw: "dropWhile isWhiteSpace (butlast ?d0 @ 93 # R)
              = dropWhile isWhiteSpace (butlast ?d0) @ 93 # R"
    by (rule dropWhile_stop) (simp add: not_ws_96)
  define d' where "d' = dropWhile isWhiteSpace (butlast ?d0)"
  have "?d0 @ R = butlast ?d0 @ 93 # R" using d0 by (metis append.assoc append_Cons append_Nil)
  with c dw have "startsWith (d' @ 93 # R) fence"
    by (simp add: closingFence_iff d'_def)
  then obtain r where r: "d' @ 93 # R = 96 # 96 # 96 # r"
    by (auto simp: startsWith_iff fence_units)
  then obtain d'' where d'': "d' = 96 # 96 # 96 # d''"
    by (cases d'; cases "tl d'"; cases "tl (tl d')") auto
  have "butlast ?d0 = takeWhile isWhiteSpace (butlast ?d0) @ d'"
    by (simp add: d'_def)
  with d0 have "?d0 = takeWhile isWhiteSpace (butlast ?d0) @ d' @ [93]"
    by (metis append.assoc)
  then have "arr = (take i arr @ takeWhile isWhiteSpace (butlast ?d0)) @ fence @ (d'' @ [93])"
    using d'' by (metis append.assoc append_Cons append_Nil append_take_drop_id fence_units)
  then have "str_includes arr fence" unfolding str_includes_iff by blast
  with nf show False by simp
qed

lemma lazyCapture_array:
  assumes "arr = 91 # mid @ [93]" and "\<not> str_includes arr fence"
    and "list_all isWhiteSpace ws2"
  shows "lazyCapture (arr @ ws2 @ fence @ post) = Some arr"
proof (rule lazyCapture_found)
  have "dropWhile isWhiteSpace (ws2 @ 96 # 96 # 96 # post) = 96 # 96 # 96 # post"
    using assms(3) by (rule dropWhile_ws_prefix) (simp add: not_ws_96)
  then show "closingFence (ws2 @ fence @ post)"
    by (simp add: closingFence_iff fence_units)
next
  fix i assume "i < length arr"
  with assms(1,2) show "\<not> closingFence (drop i arr @ ws2 @ fence @ post)"
    by (rule no_early_close)
qed

lemma afterOpening_array:
  assumes arr: "arr = 91 # mid @ [93]" and nf: "\<not> str_includes arr fence"
    and tag: "tag = [] \<or> tag = js ''json''"
    and w1: "list_all isWhiteSpace ws1" and w2: "list_all isWhiteSpace ws2"
  shows "afterOpening (tag @ ws1 @ arr @ ws2 @ fence @ post) = Some arr"
proof -
  let ?R = "mid @ 93 # ws2 @ fence @ post"
  have body: "ws1 @ arr @ ws2 @ fence @ post = ws1 @ 91 # ?R" by (simp add: arr)
  obtain others where sp: "afterSpaces (ws1 @ 91 # ?R) = (91 # ?R) # others"
    using afterSpaces_hd [OF w1, of 91 ?R] by (auto simp: not_ws_96)
  have cap: "lazyCapture (91 # ?R) = Some arr"
    using lazyCapture_array [OF arr nf w2, of post] by (simp add: arr)
  have nj: "\<not> startsWith (ws1 @ 91 # ?R) (js ''json'')"
  proof (cases ws1)
    case Nil
    then show ?thesis by (simp add: js_def)
  next
    case (Cons a as)
    with w1 have "isWhiteSpace a" by simp
    then have "a \<noteq> 106" using not_ws_96(4) by blast
    with Cons show ?thesis by (simp add: js_def)
  qed
  have fs: "firstSome (map lazyCapture (afterSpaces (ws1 @ 91 # ?R)) @ more) = Some arr" for more
    unfolding sp by (simp add: cap del: lazyCapture.simps)
  from tag show ?thesis
  proof
    assume "tag = []"
    then show ?thesis
      using nj fs [of "[]"]
      by (simp add: afterOpening_def afterJson_def body del: lazyCapture.simps)
  next
    assume t: "tag = js ''json''"
    have "startsWith (js ''json'' @ ws1 @ 91 # ?R) (js ''json'')"
      by (simp add: startsWith_iff)
    moreover have "drop 4 (js ''json'' @ ws1 @ 91 # ?R) = ws1 @ 91 # ?R"
      by (simp add: js_def)
    ultimately show ?thesis
      using fs [of "map lazyCapture (afterSpaces (js ''json'' @ ws1 @ 91 # ?R))"]
      by (simp add: afterOpening_def afterJson_def t body del: lazyCapture.simps)
  qed
qed

lemma slice_in_fence:
  assumes "bracketed arr" and "\<not> str_includes arr fence" and "96 \<notin> set pre"
    and "tag = [] \<or> tag = js ''json''"
    and "list_all isWhiteSpace ws1" and "list_all isWhiteSpace ws2"
  shows "sliceArray (unwrapFence (pre @ fence @ tag @ ws1 @ arr @ ws2 @ fence @ post)) = Some arr"
proof -
  from assms(1) obtain mid where arr: "arr = 91 # mid @ [93]"
    using bracketedD by blast
  let ?m = "96 # 96 # tag @ ws1 @ arr @ ws2 @ [96, 96]"
  let ?post' = "rev (dropWhile isWhiteSpace (rev post))"
  have "trim (pre @ 96 # ?m @ 96 # post) = dropWhile isWhiteSpace pre @ 96 # ?m @ 96 # ?post'"
    by (rule trim_between) (simp_all add: not_ws_96)
  then have t: "trim (pre @ fence @ tag @ ws1 @ arr @ ws2 @ fence @ post)
          = dropWhile isWhiteSpace pre @ fence @ tag @ ws1 @ arr @ ws2 @ fence @ ?post'"
    by (simp add: fence_units)
  have "96 \<notin> set (dropWhile isWhiteSpace pre)"
    using assms(3) by (meson set_dropWhileD)
  then have "fenceMatch (dropWhile isWhiteSpace pre @ fence @ tag @ ws1 @ arr @ ws2 @ fence @ ?post')
               = fenceMatch (fence @ tag @ ws1 @ arr @ ws2 @ fence @ ?post')"
    by (rule fenceMatch_skip)
  also have "\<dots> = Some arr"
    using afterOpening_array [OF arr assms(2,4,5,6), of ?post']
    by (simp add: fence_units)
  finally have "unwrapFence (pre @ fence @ tag @ ws1 @ arr @ ws2 @ fence @ post) = arr"
    by (simp add: unwrapFence_def Let_def t)
  moreover have "sliceArray ([] @ 91 # mid @ 93 # []) = Some (91 # mid @ [93])"
    by (rule sliceArray_found) simp_all
  ultimately show ?thesis by (simp add: arr)
qed

section \<open>Examples of parsing and slicing\<close>

text \<open>
  \<open>JSON.parse\<close> on small texts: nesting, a repeated key, white space around tokens, and
  the texts it rejects (a trailing comma, two values, an unclosed array, a number with
  a leading zero, a bare word).
\<close>

lemma JSON_parse_accepts:
  "JSON_parse (js '' [1, [2, {\"a\": [], \"b\": {}, \"a\": null}], true, -0.5e3 ] '')
     = Some (JArray [JNumber (js ''1''),
                     JArray [JNumber (js ''2''),
                             JObject [(js ''a'', JNull), (js ''b'', JObject [])]],
                     JBool True, JNumber (js ''-0.5e3'')])"
  by (simp add: JSON_parse_def js_def consUnit_def isDigit_def scanNumber_def scanInt_def
        scanDigits_def scanFraction_def scanExponent_def)

lemma JSON_parse_rejects:
  "JSON_parse (js ''[1,]'') = None"
  "JSON_parse (js ''[1] [2]'') = None"
  "JSON_parse (js ''[[1]'') = None"
  "JSON_parse (js ''[01]'') = None"
  "JSON_parse (js ''[tru]'') = None"
  "JSON_parse [] = None"
  by (simp_all add: JSON_parse_def js_def consUnit_def isDigit_def scanNumber_def scanInt_def
        scanDigits_def scanFraction_def scanExponent_def)

text \<open>
  When the last \<open>]\<close> comes before the first \<open>[\<close>, \<open>substring\<close> swaps its arguments and
  the slice is the text between the two.
\<close>

lemma sliceArray_swapped: "sliceArray (js ''] 12 ['') = Some (js '' 12 '')"
  by (simp add: sliceArray_def lastIndexOf_def substring_def Let_def js_def)

section \<open>The extraction of an array from a response\<close>

lemma withThumbnail_object:
  "map_of props (js ''id'') = Some (JString i) \<Longrightarrow>
   withThumbnail p (JObject props)
     = Inr (JObject (AList.update (js ''thumbnailUrl'') (JString (thumbnailUrlFor i)) props))"
  by (simp add: withThumbnail_def idOf_def templateText_def spread_def)

lemma mapThrowing_objects:
  assumes "map (\<lambda>props. map_of props (js ''id'')) objs = map (\<lambda>i. Some (JString i)) ids"
  shows "mapThrowing (withThumbnail p) (map JObject objs)
     = Inr (map (\<lambda>(props, i). JObject (AList.update (js ''thumbnailUrl'')
                                   (JString (thumbnailUrlFor i)) props)) (zip objs ids))"
proof -
  from assms have "length objs = length ids"
    by (metis length_map)
  then show ?thesis using assms
    by (induction objs ids rule: list_induct2) (simp_all add: withThumbnail_object)
qed

lemma searchCatch_AI:
  "searchCatch (Error (js ''The AI returned a response without a valid JSON array.''))
     = Error (js ''The AI returned a response without a valid JSON array.'')"
  by (simp add: searchCatch_def js_def)

lemma parse_scenario: "JSON_parse scenarioArray = Some (JArray [JObject scenarioVideo])"
  by (simp add: scenarioArray_def scenarioVideo_def JSON_parse_def js_def consUnit_def isDigit_def)

lemma scenario_bracketed: "bracketed scenarioArray"
  by (simp add: bracketed_def scenarioArray_def js_def)

lemma scenario_nofence: "\<not> str_includes scenarioArray fence"
  by (simp add: scenarioArray_def js_def fence_def)

lemma empty_array_text:
  "sliceArray (unwrapFence (js ''[]'')) = Some (js ''[]'')" "JSON_parse (js ''[]'') = Some (JArray [])"
  by (simp_all add: unwrapFence_def trim_def js_def isWhiteSpace_def fence_def sliceArray_def
        substring_def lastIndexOf_def Let_def JSON_parse_def)

text \<open>
  C1, as claimed, fails. The text below is a valid JSON array of one article. The
  regular expression finds a fenced block inside its summary and the working text
  becomes \<open>npm i\<close>, which has no bracket: the news call returns the empty array, not
  the one element of the array.
\<close>

theorem fetchAndSummarizeNews_loses_fenced_snippet:
  "JSON_parse snippetArray
     = Some (JArray [JObject [(js ''title'', JString (js ''T'')),
                              (js ''summary'', JString (js ''run ```npm i``` first'')),
                              (js ''link'', JString (js ''u''))]])
   \<and> snd (fetchAndSummarizeNews (answering snippetArray) (js ''https://example.com'')) = JArray []"
proof -
  have p: "JSON_parse snippetArray
     = Some (JArray [JObject [(js ''title'', JString (js ''T'')),
                              (js ''summary'', JString (js ''run ```npm i``` first'')),
                              (js ''link'', JString (js ''u''))]])"
    by (simp add: snippetArray_def JSON_parse_def js_def consUnit_def isDigit_def)
  have u: "unwrapFence snippetArray = js ''npm i''"
    by (simp add: snippetArray_def unwrapFence_def trim_def js_def isWhiteSpace_def fence_def
          afterOpening_def afterJson_def afterSpaces_def closingFence_def)
  have "sliceArray (js ''npm i'') = None"
    by (simp add: sliceArray_None js_def)
  with u have "snd (fetchAndSummarizeNews (answering snippetArray) (js ''https://example.com'')) = JArray []"
    by (simp add: fetchAndSummarizeNews_def answering_def)
  with p show ?thesis by simp
qed

text \<open>
  C1, amended. Let the array text begin with \<open>[\<close>, end with \<open>]\<close> and be parsed by
  \<open>JSON.parse\<close> to the elements \<open>elems\<close>. Let the response be that text surrounded by
  prose, with no \<open>[\<close> before it, no \<open>]\<close> after it and no triple backtick anywhere; or
  let it hold the text in a fenced block (the fence, an optional \<open>json\<close>, white space,
  the array, white space, the fence) with no backtick before the block and no triple
  backtick in the array, whatever follows the block. Then the news call returns
  \<open>elems\<close>; the tag call, when the elements are strings, returns their normalizations;
  and the video search, when the elements are objects whose \<open>id\<close> is a string, returns
  each object with \<open>thumbnailUrl\<close> set to \<open>"https://i.ytimg.com/vi/" + id +
  "/hqdefault.jpg"\<close>. An object gets the same result whatever \<open>thumbnailUrl\<close> the
  response gave it.
\<close>

theorem extractor_recovers_array:
  assumes "bracketed arr" and "JSON_parse arr = Some (JArray elems)"
    and "(text = pre @ arr @ post \<and> 91 \<notin> set pre \<and> 93 \<notin> set post
            \<and> \<not> str_includes text fence)
       \<or> (text = pre @ fence @ tag @ ws1 @ arr @ ws2 @ fence @ post \<and> 96 \<notin> set pre
            \<and> (tag = [] \<or> tag = js ''json'')
            \<and> list_all isWhiteSpace ws1 \<and> list_all isWhiteSpace ws2
            \<and> \<not> str_includes arr fence)"
  shows "(callProxy p (SummarizeNews url) = Inr (Some text)
            \<longrightarrow> snd (fetchAndSummarizeNews p url) = JArray elems)
       \<and> (callProxy p (GenerateTags url) = Inr (Some text) \<and> elems = map JString names
            \<longrightarrow> snd (generateTagsForNewsSource p url)
                  = JArray (map (\<lambda>s. JString (normalizeTag (caseTables p) s)) names))
       \<and> (search_tags params \<noteq> [] \<and> callProxy p (SearchVideos params) = Inr (Some text)
            \<and> elems = map JObject objs
            \<and> map (\<lambda>props. map_of props (js ''id'')) objs = map (\<lambda>i. Some (JString i)) ids
            \<longrightarrow> snd (searchYouTubeVideos p params)
                  = Inr (JArray (map (\<lambda>(props, i). JObject (AList.update (js ''thumbnailUrl'')
                                   (JString (thumbnailUrlFor i)) props)) (zip objs ids))))
       \<and> withThumbnail p (JObject (AList.update (js ''thumbnailUrl'') given props))
           = withThumbnail p (JObject props)"
proof -
  from assms(3) have s: "sliceArray (unwrapFence text) = Some arr"
  proof
    assume "text = pre @ arr @ post \<and> 91 \<notin> set pre \<and> 93 \<notin> set post
            \<and> \<not> str_includes text fence"
    then have "text = pre @ arr @ post" and "91 \<notin> set pre" and "93 \<notin> set post"
      and "\<not> str_includes (pre @ arr @ post) fence" by auto
    then show ?thesis using slice_in_prose [OF assms(1)] by simp
  next
    assume "text = pre @ fence @ tag @ ws1 @ arr @ ws2 @ fence @ post \<and> 96 \<notin> set pre
            \<and> (tag = [] \<or> tag = js ''json'')
            \<and> list_all isWhiteSpace ws1 \<and> list_all isWhiteSpace ws2
            \<and> \<not> str_includes arr fence"
    then have "text = pre @ fence @ tag @ ws1 @ arr @ ws2 @ fence @ post" and "96 \<notin> set pre"
      and "tag = [] \<or> tag = js ''json''" and "list_all isWhiteSpace ws1"
      and "list_all isWhiteSpace ws2" and "\<not> str_includes arr fence" by auto
    then show ?thesis using slice_in_fence [OF assms(1)] by simp
  qed
  have n: "snd (fetchAndSummarizeNews p url) = JArray elems"
    if "callProxy p (SummarizeNews url) = Inr (Some text)"
    using that s assms(2) by (simp add: fetchAndSummarizeNews_def)
  have g: "snd (generateTagsForNewsSource p url) = JArray (map (\<lambda>s. JString (normalizeTag (caseTables p) s)) names)"
    if "callProxy p (GenerateTags url) = Inr (Some text)" and "elems = map JString names"
    using that s assms(2)
    by (simp add: generateTagsForNewsSource_def list_all_iff isJString_def comp_def)
  have v: "snd (searchYouTubeVideos p params)
             = Inr (JArray (map (\<lambda>(props, i). JObject (AList.update (js ''thumbnailUrl'')
                                   (JString (thumbnailUrlFor i)) props)) (zip objs ids)))"
    if "search_tags params \<noteq> []" and "callProxy p (SearchVideos params) = Inr (Some text)"
      and "elems = map JObject objs"
      and "map (\<lambda>props. map_of props (js ''id'')) objs = map (\<lambda>i. Some (JString i)) ids"
    using that(1,2,3) s assms(2) mapThrowing_objects [OF that(4), of p]
    by (simp add: searchYouTubeVideos_def searchAttempt_def)
  have "js ''thumbnailUrl'' \<noteq> js ''id''" by (simp add: js_def)
  then have o: "withThumbnail p (JObject (AList.update (js ''thumbnailUrl'') given props))
                  = withThumbnail p (JObject props)"
    by (simp add: withThumbnail_def idOf_def spread_def update_conv' split: sum.splits)
  from n g v o show ?thesis by blast
qed

text \<open>
  The end-to-end scenario of the specification: the fenced response with the video
  \<open>x1\<close> yields that video with its derived \<open>thumbnailUrl\<close>.
\<close>

theorem extractor_recovers_array_witness:
  "bracketed scenarioArray \<and> JSON_parse scenarioArray = Some (JArray [JObject scenarioVideo])
   \<and> snd (searchYouTubeVideos (answering scenarioResponse) rustSearch)
       = Inr (JArray [JObject (scenarioVideo @
               [(js ''thumbnailUrl'', JString (js ''https://i.ytimg.com/vi/x1/hqdefault.jpg''))])])"
proof -
  have shape: "(scenarioResponse = [] @ scenarioArray @ [] \<and> 91 \<notin> set ([]::jsstring)
            \<and> 93 \<notin> set ([]::jsstring)
            \<and> \<not> str_includes scenarioResponse fence)
       \<or> (scenarioResponse = [] @ fence @ js ''json'' @ [10] @ scenarioArray @ [10] @ fence @ []
            \<and> 96 \<notin> set ([]::jsstring)
            \<and> (js ''json'' = [] \<or> js ''json'' = js ''json'')
            \<and> list_all isWhiteSpace [10] \<and> list_all isWhiteSpace [10]
            \<and> \<not> str_includes scenarioArray fence)"
    by (simp add: scenarioResponse_def scenario_nofence isWhiteSpace_def)
  have ids: "map (\<lambda>props. map_of props (js ''id'')) [scenarioVideo] = map (\<lambda>i. Some (JString i)) [js ''x1'']"
    by (simp add: scenarioVideo_def js_def)
  have t: "search_tags rustSearch \<noteq> []" by (simp add: rustSearch_def)
  have a: "callProxy (answering scenarioResponse) (SearchVideos rustSearch) = Inr (Some scenarioResponse)"
    by (simp add: answering_def)
  have e: "[JObject scenarioVideo] = map JObject [scenarioVideo]" by simp
  from extractor_recovers_array [OF scenario_bracketed parse_scenario shape,
      where p = "answering scenarioResponse" and params = rustSearch
        and objs = "[scenarioVideo]" and ids = "[js ''x1'']" and url = "[]" and names = "[]"
        and given = JNull and props = "[]"]
    t a e ids
  have "snd (searchYouTubeVideos (answering scenarioResponse) rustSearch)
          = Inr (JArray (map (\<lambda>(props, i). JObject (AList.update (js ''thumbnailUrl'')
                                   (JString (thumbnailUrlFor i)) props)) (zip [scenarioVideo] [js ''x1''])))"
    by blast
  moreover have "AList.update (js ''thumbnailUrl'') (JString (thumbnailUrlFor (js ''x1''))) scenarioVideo
      = scenarioVideo @ [(js ''thumbnailUrl'', JString (js ''https://i.ytimg.com/vi/x1/hqdefault.jpg''))]"
    by (simp add: scenarioVideo_def thumbnailUrlFor_def js_def)
  ultimately show ?thesis
    using scenario_bracketed parse_scenario by simp
qed

text \<open>
  C2. When the working text of a response (trimmed, and unwrapped if it holds a fenced
  block) has no \<open>[\<close> or no \<open>]\<close>, the news summarization and the tag generation
  return the empty array, and the video search, which sends a request only for a
  non-empty tag list, throws the error \<open>The AI returned a response without a valid JSON
  array.\<close> and returns nothing.
\<close>

theorem extraction_without_brackets:
  assumes "91 \<notin> set (unwrapFence text) \<or> 93 \<notin> set (unwrapFence text)"
  shows "(callProxy p (SummarizeNews url) = Inr (Some text)
            \<longrightarrow> snd (fetchAndSummarizeNews p url) = JArray [])
       \<and> (callProxy p (GenerateTags url) = Inr (Some text)
            \<longrightarrow> snd (generateTagsForNewsSource p url) = JArray [])
       \<and> (search_tags params \<noteq> [] \<and> callProxy p (SearchVideos params) = Inr (Some text)
            \<longrightarrow> snd (searchYouTubeVideos p params)
                  = Inl (Error (js ''The AI returned a response without a valid JSON array.'')))"
proof -
  from assms have "sliceArray (unwrapFence text) = None"
    by (simp add: sliceArray_None)
  then show ?thesis
    by (simp add: fetchAndSummarizeNews_def generateTagsForNewsSource_def
          searchYouTubeVideos_def searchAttempt_def searchCatch_AI)
qed

text \<open>
  A response of prose only.
\<close>

theorem extraction_without_brackets_witness:
  "91 \<notin> set (unwrapFence (js ''Sorry, I found nothing.''))
   \<and> snd (fetchAndSummarizeNews (answering (js ''Sorry, I found nothing.'')) (js ''https://example.com'')) = JArray []
   \<and> snd (generateTagsForNewsSource (answering (js ''Sorry, I found nothing.'')) (js ''https://example.com'')) = JArray []
   \<and> snd (searchYouTubeVideos (answering (js ''Sorry, I found nothing.'')) rustSearch)
        = Inl (Error (js ''The AI returned a response without a valid JSON array.''))"
proof -
  have u: "unwrapFence (js ''Sorry, I found nothing.'') = js ''Sorry, I found nothing.''"
    by (simp add: unwrapFence_def trim_def js_def isWhiteSpace_def fence_def)
  have h: "91 \<notin> set (unwrapFence (js ''Sorry, I found nothing.''))"
    unfolding u by (simp add: js_def)
  have t: "search_tags rustSearch \<noteq> []" by (simp add: rustSearch_def)
  have a: "callProxy (answering (js ''Sorry, I found nothing.'')) req = Inr (Some (js ''Sorry, I found nothing.''))" for req
    by (simp add: answering_def)
  from extraction_without_brackets [of "js ''Sorry, I found nothing.''" "answering (js ''Sorry, I found nothing.'')"
      "js ''https://example.com''" rustSearch] h t a
  show ?thesis by blast
qed

text \<open>
  C10. With an empty tag list \<open>searchYouTubeVideos\<close> returns the empty array, sends no
  request and throws nothing, whereas with tags it sends one request. The value
  returned is the one returned when the AI answers a search with \<open>[]\<close>: the caller
  cannot tell an empty tag list from a search without matches.
\<close>

theorem searchYouTubeVideos_no_tags:
  "searchYouTubeVideos p (params\<lparr>search_tags := []\<rparr>) = ([], Inr (JArray []))
   \<and> (search_tags params \<noteq> []
        \<longrightarrow> fst (searchYouTubeVideos p params) = [SearchVideos params])
   \<and> (search_tags params \<noteq> [] \<and> callProxy p (SearchVideos params) = Inr (Some (js ''[]''))
        \<longrightarrow> snd (searchYouTubeVideos p params)
              = snd (searchYouTubeVideos p (params\<lparr>search_tags := []\<rparr>)))"
  by (simp add: searchYouTubeVideos_def searchAttempt_def empty_array_text)

text \<open>
  A search for one tag that the AI answers with \<open>[]\<close>, and the same with no tag.
\<close>

theorem searchYouTubeVideos_no_tags_witness:
  "search_tags rustSearch \<noteq> []
   \<and> callProxy (answering (js ''[]'')) (SearchVideos rustSearch) = Inr (Some (js ''[]''))
   \<and> searchYouTubeVideos (answering (js ''[]'')) (rustSearch\<lparr>search_tags := []\<rparr>) = ([], Inr (JArray []))
   \<and> searchYouTubeVideos (answering (js ''[]'')) rustSearch = ([SearchVideos rustSearch], Inr (JArray []))"
proof -
  have h1: "search_tags rustSearch \<noteq> []" by (simp add: rustSearch_def)
  have h2: "callProxy (answering (js ''[]'')) (SearchVideos rustSearch) = Inr (Some (js ''[]''))"
    by (simp add: answering_def)
  note t = searchYouTubeVideos_no_tags [of "answering (js ''[]'')" rustSearch]
  from t have e: "searchYouTubeVideos (answering (js ''[]'')) (rustSearch\<lparr>search_tags := []\<rparr>) = ([], Inr (JArray []))"
    by blast
  from t h1 have f: "fst (searchYouTubeVideos (answering (js ''[]'')) rustSearch) = [SearchVideos rustSearch]"
    by blast
  from t h1 h2 have "snd (searchYouTubeVideos (answering (js ''[]'')) rustSearch)
       = snd (searchYouTubeVideos (answering (js ''[]'')) (rustSearch\<lparr>search_tags := []\<rparr>))" by blast
  with e have s: "snd (searchYouTubeVideos (answering (js ''[]'')) rustSearch) = Inr (JArray [])" by simp
  from f s have "searchYouTubeVideos (answering (js ''[]'')) rustSearch = ([SearchVideos rustSearch], Inr (JArray []))"
    by (metis prod.collapse)
  with h1 h2 e show ?thesis by blast
qed

section \<open>Properties of the update check\<close>

lemma parse_react: "parseRepoUrl (platformWith z r d) reactUrl = Some (js ''facebook'', js ''react'')"
  by (simp add: parseRepoUrl_def platformWith_def js_def Let_def)

lemma parse_react': "parseRepoUrl (platformWith z r d) (repo_url react) = Some (js ''facebook'', js ''react'')"
  by (simp add: react_def parse_react)

lemma fetch_react_serving:
  "fetchLatestRelease (platformWith z (serving rs) d) (js ''facebook'') (js ''react'')
     = Inr (if length rs > 0 then Some (rs ! 0) else None)"
  by (simp add: fetchLatestRelease_def platformWith_def serving_def GITHUB_API_BASE_def js_def)

lemma fetch_react_failing:
  "fetchLatestRelease (platformWith z (Inl e) d) (js ''facebook'') (js ''react'') = Inl e"
  by (simp add: fetchLatestRelease_def platformWith_def GITHUB_API_BASE_def js_def)

text \<open>
  C3, as claimed, fails. In New York on 2026-11-03 at 12:00 (17:00 UTC), two days after
  the clocks went back, \<open>setDate(getDate() - 3)\<close> gives 2026-10-31 at 12:00 local time,
  which was 16:00 UTC: 73 hours earlier. A release published 3 days and 1 second before
  now, at 16:59:59 UTC, is later than that, and \<open>hasUpdate\<close> is true.
\<close>

theorem checkRepositoryUpdate_after_clock_change:
  "Date_parse (platformWith newYorkZone (serving [releaseAt (js ''2026-10-31T16:59:59Z'')])
                 [(js ''2026-10-31T16:59:59Z'', 1793465999000)]) (js ''2026-10-31T16:59:59Z'')
     = Some (1793725200000 - 3 * msPerDay - 1000)
   \<and> hasUpdate (checkRepositoryUpdate
        (platformWith newYorkZone (serving [releaseAt (js ''2026-10-31T16:59:59Z'')])
           [(js ''2026-10-31T16:59:59Z'', 1793465999000)]) 1793725200000 react)"
proof -
  let ?p = "platformWith newYorkZone (serving [releaseAt (js ''2026-10-31T16:59:59Z'')])
              [(js ''2026-10-31T16:59:59Z'', 1793465999000)]"
  have th: "threeDaysAgo ?p 1793725200000 = 1793462400000"
    by (simp add: threeDaysAgo_def platformWith_def newYorkZone_def msPerDay_def Let_def)
  have dp: "Date_parse ?p (js ''2026-10-31T16:59:59Z'') = Some 1793465999000"
    by (simp add: platformWith_def)
  have pa: "published_at (releaseAt (js ''2026-10-31T16:59:59Z'')) = js ''2026-10-31T16:59:59Z''"
    by (simp add: releaseAt_def)
  have "hasUpdate (checkRepositoryUpdate ?p 1793725200000 react)"
    by (simp add: checkRepositoryUpdate_def parse_react' fetch_react_serving th dp pa)
  moreover have "Date_parse ?p (js ''2026-10-31T16:59:59Z'') = Some (1793725200000 - 3 * msPerDay - 1000)"
    by (simp add: dp msPerDay_def)
  ultimately show ?thesis by blast
qed

text \<open>
  C3, amended. For every tracked repository whose URL names a GitHub repository and
  whose latest release exists, \<open>hasUpdate\<close> is set to \<open>publishedAt > threeDaysAgo\<close>,
  where \<open>threeDaysAgo\<close> is the local time of now moved back three calendar days (false
  when \<open>publishedAt\<close> is no valid date), and \<open>latestRelease\<close> to the snapshot of the
  release. Where local time has the same offset from UTC at that earlier local time as
  now, \<open>threeDaysAgo\<close> is now less 72 hours; then a release published 3 days and 1
  second before now gives \<open>hasUpdate = false\<close> and one published 2 days 23 hours before
  now gives \<open>hasUpdate = true\<close>.
\<close>

theorem checkRepositoryUpdate_release:
  assumes "parseRepoUrl p (repo_url r) = Some (owner, repo)"
      and "fetchLatestRelease p owner repo = Inr (Some latest)"
  shows "hasUpdate (checkRepositoryUpdate p now r)
           = (case Date_parse p (published_at latest) of None \<Rightarrow> False
              | Some releaseDate \<Rightarrow> releaseDate > threeDaysAgo p now)
    \<and> latestRelease (checkRepositoryUpdate p now r)
           = Some \<lparr>rel_name = name latest, rel_tagName = tag_name latest,
                   rel_publishedAt = published_at latest, rel_url = html_url latest\<rparr>
    \<and> (LocalTZA_local p (now + LocalTZA_utc p now - 3 * msPerDay) = LocalTZA_utc p now
        \<longrightarrow> threeDaysAgo p now = now - 3 * msPerDay
          \<and> (Date_parse p (published_at latest) = Some (now - 3 * msPerDay - 1000)
               \<longrightarrow> \<not> hasUpdate (checkRepositoryUpdate p now r))
          \<and> (Date_parse p (published_at latest) = Some (now - (2 * 24 + 23) * 3600000)
               \<longrightarrow> hasUpdate (checkRepositoryUpdate p now r)))"
  using assms
  by (simp add: checkRepositoryUpdate_def threeDaysAgo_def Let_def msPerDay_def)

text \<open>
  In UTC, a release published 2 days 23 hours before now.
\<close>

theorem checkRepositoryUpdate_release_witness:
  "parseRepoUrl (platformWith utcZone (serving [releaseAt (js ''2026-10-31T18:00:00Z'')])
       [(js ''2026-10-31T18:00:00Z'', 1793469600000)]) (repo_url react)
     = Some (js ''facebook'', js ''react'')
   \<and> fetchLatestRelease (platformWith utcZone (serving [releaseAt (js ''2026-10-31T18:00:00Z'')])
       [(js ''2026-10-31T18:00:00Z'', 1793469600000)]) (js ''facebook'') (js ''react'')
     = Inr (Some (releaseAt (js ''2026-10-31T18:00:00Z'')))
   \<and> hasUpdate (checkRepositoryUpdate
        (platformWith utcZone (serving [releaseAt (js ''2026-10-31T18:00:00Z'')])
           [(js ''2026-10-31T18:00:00Z'', 1793469600000)]) 1793725200000 react)"
proof -
  let ?p = "platformWith utcZone (serving [releaseAt (js ''2026-10-31T18:00:00Z'')])
              [(js ''2026-10-31T18:00:00Z'', 1793469600000)]"
  have h1: "parseRepoUrl ?p (repo_url react) = Some (js ''facebook'', js ''react'')"
    by (rule parse_react')
  have h2: "fetchLatestRelease ?p (js ''facebook'') (js ''react'')
              = Inr (Some (releaseAt (js ''2026-10-31T18:00:00Z'')))"
    by (simp add: fetch_react_serving)
  have z: "LocalTZA_local ?p (1793725200000 + LocalTZA_utc ?p 1793725200000 - 3 * msPerDay)
             = LocalTZA_utc ?p 1793725200000"
    by (simp add: platformWith_def utcZone_def)
  have d: "Date_parse ?p (published_at (releaseAt (js ''2026-10-31T18:00:00Z'')))
             = Some (1793725200000 - (2 * 24 + 23) * 3600000)"
    by (simp add: platformWith_def releaseAt_def js_def)
  from checkRepositoryUpdate_release [OF h1 h2, of 1793725200000] z d
  have "hasUpdate (checkRepositoryUpdate ?p 1793725200000 react)" by blast
  with h1 h2 show ?thesis by blast
qed

lemma parse_vue:
  "parseRepoUrl (twoRepositories z a b d) (repo_url vue) = Some (js ''vuejs'', js ''vue'')"
  by (simp add: parseRepoUrl_def twoRepositories_def vue_def reactUrl_def js_def Let_def)

lemma parse_react_of_two:
  "parseRepoUrl (twoRepositories z a b d) reactUrl = Some (js ''facebook'', js ''react'')"
  by (simp add: parseRepoUrl_def twoRepositories_def js_def Let_def)

lemma fetch_vue_serving:
  "fetchLatestRelease (twoRepositories z a (serving rs) d) (js ''vuejs'') (js ''vue'')
     = Inr (if length rs > 0 then Some (rs ! 0) else None)"
  by (simp add: fetchLatestRelease_def twoRepositories_def serving_def GITHUB_API_BASE_def js_def)

lemma fetch_react_of_two_failing:
  "fetchLatestRelease (twoRepositories z (Inl e) b d) (js ''facebook'') (js ''react'') = Inl e"
  by (simp add: fetchLatestRelease_def twoRepositories_def GITHUB_API_BASE_def js_def)

lemma checkAll_nth:
  "j < length rs \<Longrightarrow> checkAll p clock rs ! j = checkRepositoryUpdate p (clock j) (rs ! j)"
  by (simp add: checkAll_def nth_enumerate_eq)

lemma checkAll_length: "length (checkAll p clock rs) = length rs"
  by (simp add: checkAll_def)

text \<open>
  C5, as claimed, fails in one part. The network fails for a repository that has the
  snapshot of an earlier release: the check raises nothing and returns \<open>hasUpdate =
  false\<close>, but the release data of the entry returned is set, to that snapshot.
\<close>

theorem checkRepositoryUpdate_failure_keeps_snapshot:
  "fetchLatestRelease (platformWith utcZone (Inl (Error (js ''Failed to fetch''))) [])
      (js ''facebook'') (js ''react'') = Inl (Error (js ''Failed to fetch''))
   \<and> latestRelease (checkRepositoryUpdate
        (platformWith utcZone (Inl (Error (js ''Failed to fetch''))) []) 1793725200000
        (react\<lparr>latestRelease := Some (snapshotAt (js ''2026-10-31T18:00:00Z''))\<rparr>))
      = Some (snapshotAt (js ''2026-10-31T18:00:00Z''))"
  by (simp add: checkRepositoryUpdate_def fetch_react_failing)
     (simp add: react_def parse_react fetch_react_failing)

text \<open>
  C5, amended. When the release lookup of a tracked repository (whose URL names a GitHub
  repository) fails, the check of that repository raises nothing: it returns the entry
  with \<open>hasUpdate = false\<close> and every other field as it was, so that \<open>latestRelease\<close> is
  left as the check found it, unset if it was unset and an earlier snapshot if there
  was one. The checks of the other repositories are unaffected: every entry of a batch
  gets the result of its own check, which no other entry of the batch enters, and the
  batch-level check returns a tracked set of the same length.
\<close>

theorem checkRepositoryUpdate_failure:
  assumes "parseRepoUrl p (repo_url r) = Some (owner, repo)"
      and "fetchLatestRelease p owner repo = Inl e"
  shows "checkRepositoryUpdate p now r = r\<lparr>hasUpdate := False\<rparr>
       \<and> \<not> hasUpdate (checkRepositoryUpdate p now r)
       \<and> latestRelease (checkRepositoryUpdate p now r) = latestRelease r
       \<and> (\<forall>i < length rs. rs ! i = r \<longrightarrow> checkAll p clock rs ! i = r\<lparr>hasUpdate := False\<rparr>)
       \<and> (\<forall>j < length rs. checkAll p clock rs ! j = checkRepositoryUpdate p (clock j) (rs ! j))
       \<and> (\<forall>j < length rs. j \<noteq> i
             \<longrightarrow> checkAll p clock (rs[i := other]) ! j = checkAll p clock rs ! j)
       \<and> length (checkAll p clock rs) = length rs
       \<and> length (runUpdateCheck p clock rs prevRepos) = length prevRepos"
proof -
  have c: "checkRepositoryUpdate p t r = r\<lparr>hasUpdate := False\<rparr>" for t
    using assms by (simp add: checkRepositoryUpdate_def)
  have "\<forall>i < length rs. rs ! i = r \<longrightarrow> checkAll p clock rs ! i = r\<lparr>hasUpdate := False\<rparr>"
    by (simp add: checkAll_nth c)
  moreover have "\<forall>j < length rs. j \<noteq> i
      \<longrightarrow> checkAll p clock (rs[i := other]) ! j = checkAll p clock rs ! j"
    by (simp add: checkAll_nth)
  moreover have "length (runUpdateCheck p clock rs prevRepos) = length prevRepos"
    by (simp add: runUpdateCheck_def mergeChecked_def)
  ultimately show ?thesis
    by (simp add: c [of now] checkAll_nth checkAll_length)
qed

text \<open>
  Two tracked repositories. The first has the snapshot of an earlier release and the
  network fails for it; the second gets a release published the day before. The first
  keeps its snapshot with \<open>hasUpdate = false\<close>; the second gets its update and its
  snapshot.
\<close>

theorem checkRepositoryUpdate_failure_witness:
  "parseRepoUrl (twoRepositories utcZone (Inl (Error (js ''Failed to fetch'')))
        (serving [vueReleaseAt (js ''2026-11-02T12:00:00Z'')])
        [(js ''2026-11-02T12:00:00Z'', 1793620800000)])
      (repo_url (react\<lparr>hasUpdate := True,
                        latestRelease := Some (snapshotAt (js ''2026-10-01T18:00:00Z''))\<rparr>))
     = Some (js ''facebook'', js ''react'')
   \<and> fetchLatestRelease (twoRepositories utcZone (Inl (Error (js ''Failed to fetch'')))
        (serving [vueReleaseAt (js ''2026-11-02T12:00:00Z'')])
        [(js ''2026-11-02T12:00:00Z'', 1793620800000)]) (js ''facebook'') (js ''react'')
     = Inl (Error (js ''Failed to fetch''))
   \<and> (0::nat) < length [react\<lparr>hasUpdate := True,
                        latestRelease := Some (snapshotAt (js ''2026-10-01T18:00:00Z''))\<rparr>,
                          vue\<lparr>hasUpdate := False\<rparr>]
   \<and> (1::nat) < length [react\<lparr>hasUpdate := True,
                        latestRelease := Some (snapshotAt (js ''2026-10-01T18:00:00Z''))\<rparr>,
                          vue\<lparr>hasUpdate := False\<rparr>]
   \<and> checkAll (twoRepositories utcZone (Inl (Error (js ''Failed to fetch'')))
        (serving [vueReleaseAt (js ''2026-11-02T12:00:00Z'')])
        [(js ''2026-11-02T12:00:00Z'', 1793620800000)]) (\<lambda>i. 1793725200000)
        [react\<lparr>hasUpdate := True,
               latestRelease := Some (snapshotAt (js ''2026-10-01T18:00:00Z''))\<rparr>,
         vue\<lparr>hasUpdate := False\<rparr>]
     = [react\<lparr>latestRelease := Some (snapshotAt (js ''2026-10-01T18:00:00Z''))\<rparr>,
        vue\<lparr>hasUpdate := True,
            latestRelease := Some (vueSnapshotAt (js ''2026-11-02T12:00:00Z''))\<rparr>]"
proof -
  let ?p = "twoRepositories utcZone (Inl (Error (js ''Failed to fetch'')))
              (serving [vueReleaseAt (js ''2026-11-02T12:00:00Z'')])
              [(js ''2026-11-02T12:00:00Z'', 1793620800000)]"
  let ?r = "react\<lparr>hasUpdate := True,
                   latestRelease := Some (snapshotAt (js ''2026-10-01T18:00:00Z''))\<rparr>"
  let ?v = "vue\<lparr>hasUpdate := False\<rparr>"
  let ?rs = "[?r, ?v]"
  have h1: "parseRepoUrl ?p (repo_url ?r) = Some (js ''facebook'', js ''react'')"
    by (simp add: react_def parse_react_of_two)
  have h2: "fetchLatestRelease ?p (js ''facebook'') (js ''react'') = Inl (Error (js ''Failed to fetch''))"
    by (rule fetch_react_of_two_failing)
  have l0: "(0::nat) < length ?rs" and l1: "(1::nat) < length ?rs" by simp_all
  note t = checkRepositoryUpdate_failure [OF h1 h2, of 1793725200000 ?rs "\<lambda>i. 1793725200000" 0 ?v "[]"]
  from t l0 have a: "checkAll ?p (\<lambda>i. 1793725200000) ?rs ! 0 = ?r\<lparr>hasUpdate := False\<rparr>"
    by simp
  from t l1 have "checkAll ?p (\<lambda>i. 1793725200000) ?rs ! 1
                    = checkRepositoryUpdate ?p 1793725200000 (?rs ! 1)"
    by blast
  moreover have "threeDaysAgo ?p 1793725200000 = 1793466000000"
    by (simp add: threeDaysAgo_def twoRepositories_def utcZone_def msPerDay_def Let_def)
  moreover have "Date_parse ?p (js ''2026-11-02T12:00:00Z'') = Some 1793620800000"
    by (simp add: twoRepositories_def)
  moreover have "parseRepoUrl ?p (repo_url ?v) = Some (js ''vuejs'', js ''vue'')"
    using parse_vue [of utcZone] by (simp add: vue_def)
  ultimately have b: "checkAll ?p (\<lambda>i. 1793725200000) ?rs ! 1
       = vue\<lparr>hasUpdate := True,
              latestRelease := Some (vueSnapshotAt (js ''2026-11-02T12:00:00Z''))\<rparr>"
    by (simp add: checkRepositoryUpdate_def fetch_vue_serving vueReleaseAt_def vueSnapshotAt_def)
  from t have l: "length (checkAll ?p (\<lambda>i. 1793725200000) ?rs) = length ?rs" by blast
  have "checkAll ?p (\<lambda>i. 1793725200000) ?rs
          = [react\<lparr>latestRelease := Some (snapshotAt (js ''2026-10-01T18:00:00Z''))\<rparr>,
             vue\<lparr>hasUpdate := True,
                 latestRelease := Some (vueSnapshotAt (js ''2026-11-02T12:00:00Z''))\<rparr>]"
  proof (rule nth_equalityI)
    show "length (checkAll ?p (\<lambda>i. 1793725200000) ?rs)
            = length [react\<lparr>latestRelease := Some (snapshotAt (js ''2026-10-01T18:00:00Z''))\<rparr>,
                      vue\<lparr>hasUpdate := True,
                          latestRelease := Some (vueSnapshotAt (js ''2026-11-02T12:00:00Z''))\<rparr>]"
      using l by simp
  next
    fix k assume "k < length (checkAll ?p (\<lambda>i. 1793725200000) ?rs)"
    with l have "k = 0 \<or> k = 1" by auto
    then show "checkAll ?p (\<lambda>i. 1793725200000) ?rs ! k
                 = [react\<lparr>latestRelease := Some (snapshotAt (js ''2026-10-01T18:00:00Z''))\<rparr>,
                    vue\<lparr>hasUpdate := True,
                        latestRelease := Some (vueSnapshotAt (js ''2026-11-02T12:00:00Z''))\<rparr>] ! k"
      using a b by (auto simp: react_def)
  qed
  with h1 h2 l0 l1 show ?thesis by blast
qed

text \<open>
  C6, as claimed, fails. The lookup succeeds and lists no release; the entry had a
  snapshot of an earlier release, and the result still has it.
\<close>

theorem checkRepositoryUpdate_keeps_snapshot:
  "fetchLatestRelease (platformWith utcZone (serving []) []) (js ''facebook'') (js ''react'') = Inr None
   \<and> latestRelease (checkRepositoryUpdate (platformWith utcZone (serving []) []) 1793725200000
        (react\<lparr>latestRelease := Some (snapshotAt (js ''2026-10-31T18:00:00Z''))\<rparr>))
      = Some (snapshotAt (js ''2026-10-31T18:00:00Z''))"
  by (simp add: checkRepositoryUpdate_def fetch_react_serving) (simp add: react_def parse_react fetch_react_serving)

text \<open>
  C6, amended. When the release lookup of a tracked repository succeeds and returns no
  release, the check returns the entry with \<open>hasUpdate = false\<close> and every other
  field, \<open>latestRelease\<close> among them, as it was: a snapshot of an earlier release is
  kept, not cleared.
\<close>

theorem checkRepositoryUpdate_no_release:
  assumes "parseRepoUrl p (repo_url r) = Some (owner, repo)"
      and "fetchLatestRelease p owner repo = Inr None"
  shows "checkRepositoryUpdate p now r = r\<lparr>hasUpdate := False\<rparr>
       \<and> \<not> hasUpdate (checkRepositoryUpdate p now r)
       \<and> latestRelease (checkRepositoryUpdate p now r) = latestRelease r"
  using assms by (simp add: checkRepositoryUpdate_def)

text \<open>
  A repository without releases.
\<close>

theorem checkRepositoryUpdate_no_release_witness:
  "parseRepoUrl (platformWith utcZone (serving []) []) (repo_url (react\<lparr>hasUpdate := True\<rparr>))
     = Some (js ''facebook'', js ''react'')
   \<and> fetchLatestRelease (platformWith utcZone (serving []) []) (js ''facebook'') (js ''react'') = Inr None
   \<and> checkRepositoryUpdate (platformWith utcZone (serving []) []) 1793725200000
        (react\<lparr>hasUpdate := True\<rparr>) = react"
proof -
  let ?p = "platformWith utcZone (serving []) []"
  have h1: "parseRepoUrl ?p (repo_url (react\<lparr>hasUpdate := True\<rparr>)) = Some (js ''facebook'', js ''react'')"
    by (simp add: react_def parse_react)
  have h2: "fetchLatestRelease ?p (js ''facebook'') (js ''react'') = Inr None"
    by (simp add: fetch_react_serving)
  from checkRepositoryUpdate_no_release [OF h1 h2, of 1793725200000]
  have "checkRepositoryUpdate ?p 1793725200000 (react\<lparr>hasUpdate := True\<rparr>) = react"
    by (simp add: react_def)
  with h1 h2 show ?thesis by blast
qed

lemma checkedMap_last:
  "checkedMap cs k = (if k \<in> repo_id ` set cs then Some (last (filter (\<lambda>r. repo_id r = k) cs)) else None)"
proof (induction cs rule: rev_induct)
  case Nil
  then show ?case by (simp add: checkedMap_def)
next
  case (snoc x xs)
  then show ?case by (auto simp: checkedMap_def)
qed

lemma mergeChecked_ids: "map repo_id (mergeChecked cs prev) = map repo_id prev"
  by (auto simp: mergeChecked_def checkedMap_last split: option.splits if_splits)
     (metis (mono_tags, lifting) filter_empty_conv imageE last_in_set mem_Collect_eq set_filter)

text \<open>
  C4. The merge of a batch of checked entries into a tracked set maps each tracked entry
  whose identity is in the result map to the entry of the map (the last checked entry
  with that identity) and leaves every other entry as it is. It removes no entry: the
  merged set has the length and, position by position, the identities of the tracked
  set; so has the result of \<open>runUpdateCheck\<close>.
\<close>

theorem mergeChecked_keeps_entries:
  "length (mergeChecked cs prev) = length prev
   \<and> map repo_id (mergeChecked cs prev) = map repo_id prev
   \<and> (\<forall>i < length prev.
        (repo_id (prev ! i) \<in> repo_id ` set cs
           \<longrightarrow> mergeChecked cs prev ! i = last (filter (\<lambda>r. repo_id r = repo_id (prev ! i)) cs))
      \<and> (repo_id (prev ! i) \<notin> repo_id ` set cs \<longrightarrow> mergeChecked cs prev ! i = prev ! i))
   \<and> length (runUpdateCheck p clock repositories prev) = length prev
   \<and> map repo_id (runUpdateCheck p clock repositories prev) = map repo_id prev"
proof (intro conjI)
  show "length (mergeChecked cs prev) = length prev"
    by (simp add: mergeChecked_def)
  show "map repo_id (mergeChecked cs prev) = map repo_id prev"
    by (rule mergeChecked_ids)
  show "\<forall>i < length prev.
        (repo_id (prev ! i) \<in> repo_id ` set cs
           \<longrightarrow> mergeChecked cs prev ! i = last (filter (\<lambda>r. repo_id r = repo_id (prev ! i)) cs))
      \<and> (repo_id (prev ! i) \<notin> repo_id ` set cs \<longrightarrow> mergeChecked cs prev ! i = prev ! i)"
    by (simp add: mergeChecked_def checkedMap_last)
  show "length (runUpdateCheck p clock repositories prev) = length prev"
    by (simp add: runUpdateCheck_def mergeChecked_def)
  show "map repo_id (runUpdateCheck p clock repositories prev) = map repo_id prev"
    by (simp add: runUpdateCheck_def mergeChecked_ids)
qed

text \<open>
  A batch with a result for one of two tracked repositories.
\<close>

theorem mergeChecked_keeps_entries_witness:
  "(0::nat) < length [react, vue] \<and> (1::nat) < length [react, vue]
   \<and> repo_id ([react, vue] ! 0) \<in> repo_id ` set [react\<lparr>hasUpdate := True\<rparr>]
   \<and> repo_id ([react, vue] ! 1) \<notin> repo_id ` set [react\<lparr>hasUpdate := True\<rparr>]
   \<and> mergeChecked [react\<lparr>hasUpdate := True\<rparr>] [react, vue] = [react\<lparr>hasUpdate := True\<rparr>, vue]"
proof -
  have h0: "(0::nat) < length [react, vue]" and h1: "(1::nat) < length [react, vue]" by simp_all
  have i0: "repo_id ([react, vue] ! 0) \<in> repo_id ` set [react\<lparr>hasUpdate := True\<rparr>]"
    by (simp add: react_def)
  have i1: "repo_id ([react, vue] ! 1) \<notin> repo_id ` set [react\<lparr>hasUpdate := True\<rparr>]"
    by (simp add: react_def vue_def)
  from mergeChecked_keeps_entries [of "[react\<lparr>hasUpdate := True\<rparr>]" "[react, vue]"] h0 h1 i0 i1
  have a: "mergeChecked [react\<lparr>hasUpdate := True\<rparr>] [react, vue] ! 0
             = last (filter (\<lambda>r. repo_id r = repo_id ([react, vue] ! 0)) [react\<lparr>hasUpdate := True\<rparr>])"
    and b: "mergeChecked [react\<lparr>hasUpdate := True\<rparr>] [react, vue] ! 1 = [react, vue] ! 1"
    and l: "length (mergeChecked [react\<lparr>hasUpdate := True\<rparr>] [react, vue]) = length [react, vue]"
    by blast+
  from a have a': "mergeChecked [react\<lparr>hasUpdate := True\<rparr>] [react, vue] ! 0 = react\<lparr>hasUpdate := True\<rparr>"
    by simp
  from b have b': "mergeChecked [react\<lparr>hasUpdate := True\<rparr>] [react, vue] ! 1 = vue" by simp
  from l a' b' have "mergeChecked [react\<lparr>hasUpdate := True\<rparr>] [react, vue] = [react\<lparr>hasUpdate := True\<rparr>, vue]"
    by (intro nth_equalityI) (auto simp: less_Suc_eq)
  with h0 h1 i0 i1 show ?thesis by blast
qed

section \<open>Properties of the news merge\<close>

lemma fetch_articles:
  "articles (fetchNewsForSource (Some f) sid bg st) = mergeArticles sid f (articles st)"
  by (simp add: fetchNewsForSource_def Let_def)

lemma mergeArticles_at:
  "articlesOf (mergeArticles sid f prev) sid
     = filter (\<lambda>a. link a \<notin> link ` set (articlesOf prev sid)) f @ articlesOf prev sid"
  by (simp add: mergeArticles_def Let_def articlesOf_def)

lemma mergeArticles_twice:
  "mergeArticles sid f (mergeArticles sid f prev) = mergeArticles sid f prev"
  by (rule ext) (auto simp: mergeArticles_def Let_def articlesOf_def filter_empty_conv)

text \<open>
  C7, as claimed, fails. A batch that lists the same article twice, fetched for a
  source without articles, leaves two entries with the same link.
\<close>

theorem fetchNewsForSource_duplicate_batch:
  "map link (articlesOf (articles (fetchNewsForSource (Some [story, story]) (js ''source-1'') False emptyNews))
      (js ''source-1''))
     = [js ''https://example.com/a'', js ''https://example.com/a'']"
  by (simp add: fetch_articles mergeArticles_at) (simp add: emptyNews_def articlesOf_def story_def)

text \<open>
  C7, amended. After a fetch, the articles of a source are the fetched articles whose
  link was not known for the source, in the order of the batch, followed by the
  articles accumulated before. An article whose link was known adds nothing. When no
  link occurs twice in the accumulated list nor in the batch, none occurs twice
  afterwards. Fetching the same batch again changes nothing. An empty batch leaves the
  accumulated articles as they were, and the articles of the other sources are never
  touched.
\<close>

theorem fetchNewsForSource_merge:
  "articlesOf (articles (fetchNewsForSource (Some fetched) sid bg st)) sid
     = filter (\<lambda>a. link a \<notin> link ` set (articlesOf (articles st) sid)) fetched
       @ articlesOf (articles st) sid
   \<and> (\<forall>a \<in> set fetched. link a \<in> link ` set (articlesOf (articles st) sid)
         \<longrightarrow> articlesOf (articles (fetchNewsForSource (Some [a]) sid bg st)) sid
               = articlesOf (articles st) sid)
   \<and> (distinct (map link (articlesOf (articles st) sid)) \<and> distinct (map link fetched)
         \<longrightarrow> distinct (map link (articlesOf (articles (fetchNewsForSource (Some fetched) sid bg st)) sid)))
   \<and> articles (fetchNewsForSource (Some fetched) sid bg (fetchNewsForSource (Some fetched) sid bg st))
       = articles (fetchNewsForSource (Some fetched) sid bg st)
   \<and> articlesOf (articles (fetchNewsForSource (Some []) sid bg st)) sid = articlesOf (articles st) sid
   \<and> (\<forall>other. other \<noteq> sid
         \<longrightarrow> articles (fetchNewsForSource (Some fetched) sid bg st) other = articles st other)"
proof (intro conjI)
  show "articlesOf (articles (fetchNewsForSource (Some fetched) sid bg st)) sid
     = filter (\<lambda>a. link a \<notin> link ` set (articlesOf (articles st) sid)) fetched
       @ articlesOf (articles st) sid"
    by (simp add: fetch_articles mergeArticles_at)
  show "\<forall>a \<in> set fetched. link a \<in> link ` set (articlesOf (articles st) sid)
         \<longrightarrow> articlesOf (articles (fetchNewsForSource (Some [a]) sid bg st)) sid
               = articlesOf (articles st) sid"
    by (simp add: fetch_articles mergeArticles_at)
  show "distinct (map link (articlesOf (articles st) sid)) \<and> distinct (map link fetched)
         \<longrightarrow> distinct (map link (articlesOf (articles (fetchNewsForSource (Some fetched) sid bg st)) sid))"
    by (auto simp: fetch_articles mergeArticles_at distinct_map_filter)
  show "articles (fetchNewsForSource (Some fetched) sid bg (fetchNewsForSource (Some fetched) sid bg st))
       = articles (fetchNewsForSource (Some fetched) sid bg st)"
    by (simp add: fetch_articles mergeArticles_twice)
  show "articlesOf (articles (fetchNewsForSource (Some []) sid bg st)) sid = articlesOf (articles st) sid"
    by (simp add: fetch_articles mergeArticles_at)
  show "\<forall>other. other \<noteq> sid
         \<longrightarrow> articles (fetchNewsForSource (Some fetched) sid bg st) other = articles st other"
    by (simp add: fetch_articles mergeArticles_def Let_def)
qed

text \<open>
  A source with one article: a batch with that article and a new one.
\<close>

theorem fetchNewsForSource_merge_witness:
  "story \<in> set [story, otherStory]
   \<and> link story \<in> link ` set (articlesOf (articles (emptyNews\<lparr>articles := [js ''source-1'' \<mapsto> [story]]\<rparr>)) (js ''source-1''))
   \<and> distinct (map link [story, otherStory])
   \<and> articlesOf (articles (fetchNewsForSource (Some [story, otherStory]) (js ''source-1'') True
         (emptyNews\<lparr>articles := [js ''source-1'' \<mapsto> [story]]\<rparr>))) (js ''source-1'')
       = [otherStory, story]
   \<and> articlesOf (articles (fetchNewsForSource (Some [story]) (js ''source-1'') True
         (emptyNews\<lparr>articles := [js ''source-1'' \<mapsto> [story]]\<rparr>))) (js ''source-1'')
       = [story]
   \<and> distinct (map link (articlesOf (articles (fetchNewsForSource (Some [story, otherStory])
         (js ''source-1'') True (emptyNews\<lparr>articles := [js ''source-1'' \<mapsto> [story]]\<rparr>))) (js ''source-1'')))"
proof -
  let ?st = "emptyNews\<lparr>articles := [js ''source-1'' \<mapsto> [story]]\<rparr>"
  have cur: "articlesOf (articles ?st) (js ''source-1'') = [story]"
    by (simp add: articlesOf_def)
  have h1: "story \<in> set [story, otherStory]" by simp
  have h2: "link story \<in> link ` set (articlesOf (articles ?st) (js ''source-1''))"
    unfolding cur by simp
  have ne: "link otherStory \<noteq> link story"
    by (simp add: story_def otherStory_def js_def)
  have h3: "distinct (map link (articlesOf (articles ?st) (js ''source-1'')))
            \<and> distinct (map link [story, otherStory])"
    unfolding cur using ne by simp
  note t = fetchNewsForSource_merge [of "[story, otherStory]" "js ''source-1''" True ?st]
  from t have "articlesOf (articles (fetchNewsForSource (Some [story, otherStory]) (js ''source-1'') True ?st)) (js ''source-1'')
      = filter (\<lambda>a. link a \<notin> link ` set (articlesOf (articles ?st) (js ''source-1''))) [story, otherStory]
        @ articlesOf (articles ?st) (js ''source-1'')" by blast
  then have a: "articlesOf (articles (fetchNewsForSource (Some [story, otherStory]) (js ''source-1'') True ?st)) (js ''source-1'')
      = [otherStory, story]"
    unfolding cur using ne by simp
  from t h1 h2 have b: "articlesOf (articles (fetchNewsForSource (Some [story]) (js ''source-1'') True ?st)) (js ''source-1'')
      = articlesOf (articles ?st) (js ''source-1'')" by blast
  from t h3 have c: "distinct (map link (articlesOf (articles (fetchNewsForSource (Some [story, otherStory])
         (js ''source-1'') True ?st)) (js ''source-1'')))" by blast
  from b have b': "articlesOf (articles (fetchNewsForSource (Some [story]) (js ''source-1'') True ?st)) (js ''source-1'')
      = [story]" unfolding cur .
  from h3 have h3': "distinct (map link [story, otherStory])" by blast
  from h1 h2 h3' a b' c show ?thesis by blast
qed

section \<open>Properties of the tag panel\<close>





end
